theory Spec2Isabelle
  imports Main
begin

section \<open>The reaction cog of the lineup bot (cogs/reactions.py)\<close>

text \<open>
  The cog keeps a bounded, ordered lineup of participants, driven by reactions on
  anchor messages, and one display message that renders the lineup. The embedding
  follows the class \<open>ReactionCog\<close>: its mutable fields are a record, every method is a
  function that takes the state and returns the new one, every exception is a value.
  A handler is modelled as running to completion: no other handler touches the fields
  while it awaits a platform call.
\<close>

subsection \<open>Errors, platform objects and the log of platform calls\<close>

text \<open>
  \<open>HTTPException\<close>, \<open>NotFound\<close> and \<open>Forbidden\<close> are what a platform call may raise;
  \<open>KeyError\<close> is a missing dictionary key and \<open>ValueError\<close> is \<open>list.remove\<close> of an
  absent element. All of them are instances of Python's \<open>Exception\<close>.
\<close>

datatype error = HTTPException | NotFound | Forbidden | KeyError | ValueError

text \<open>
  An emoji as the handlers see it: \<open>getattr(e, "name", None)\<close>, \<open>getattr(e, "id", None)\<close>
  and \<open>str(e)\<close>. A plain unicode string has neither name nor id.
\<close>

record emoji =
  emoji_name :: "string option"
  emoji_id :: "int option"
  emoji_str :: string

text \<open>The configured emoji: a unicode string, or the id of a custom emoji.\<close>

datatype emoji_spec = Unicode string | CustomId int

record user =
  user_id :: int
  user_name :: string
  user_display_name :: string
  user_is_member :: bool

text \<open>A channel object is identified with its id.\<close>

type_synonym channel = int

text \<open>
  A message: \<open>channel.id\<close>, \<open>id\<close>, \<open>author\<close>, the ids of \<open>role_mentions\<close> and
  the \<open>emoji\<close> of each of its \<open>reactions\<close>.
\<close>

record message =
  msg_channel :: channel
  msg_id :: int
  msg_author :: user
  msg_role_mentions :: "int list"
  msg_reactions :: "emoji list"

record reaction =
  reaction_emoji_of :: emoji
  reaction_message :: message

record raw_payload =
  payload_user_id :: int
  payload_emoji :: emoji
  payload_channel_id :: int
  payload_message_id :: int
  payload_guild_id :: "int option"

record interaction =
  interaction_id :: int
  interaction_channel :: channel

text \<open>
  Every awaited platform call, and the \<open>print\<close> of \<open>on_message\<close>, is logged with
  its arguments and its result (\<open>Inl\<close> is the exception it raised).
\<close>

datatype call =
    FetchMessage channel int "error + message"
  | Send channel string "error + message"
  | Edit message string "error + unit"
  | AddReaction message emoji_spec "error + unit"
  | RemoveReaction message emoji int "error + unit"
  | Defer interaction "error + unit"
  | EditOriginalResponse interaction string "error + unit"
  | Print error

text \<open>
  The chat platform, over a world \<open>'w\<close> of its own. Lookups in the client's cache
  (\<open>get_channel\<close>, \<open>get_guild\<close>, \<open>get_member\<close>) read the world; every awaited call
  returns a new world and either a result or an exception. Nothing is assumed about
  these functions: a message may be gone between any two calls.
\<close>

record 'w platform =
  bot_user_id :: int
  get_channel :: "'w \<Rightarrow> int \<Rightarrow> channel option"
  get_guild :: "'w \<Rightarrow> int \<Rightarrow> int option"
  get_member :: "'w \<Rightarrow> int \<Rightarrow> int \<Rightarrow> user option"
  fetch_message :: "'w \<Rightarrow> channel \<Rightarrow> int \<Rightarrow> 'w \<times> (error + message)"
  send :: "'w \<Rightarrow> channel \<Rightarrow> string \<Rightarrow> 'w \<times> (error + message)"
  edit :: "'w \<Rightarrow> message \<Rightarrow> string \<Rightarrow> 'w \<times> (error + unit)"
  add_reaction :: "'w \<Rightarrow> message \<Rightarrow> emoji_spec \<Rightarrow> 'w \<times> (error + unit)"
  remove_reaction :: "'w \<Rightarrow> message \<Rightarrow> emoji \<Rightarrow> int \<Rightarrow> 'w \<times> (error + unit)"
  response_defer :: "'w \<Rightarrow> interaction \<Rightarrow> 'w \<times> (error + unit)"
  edit_original_response :: "'w \<Rightarrow> interaction \<Rightarrow> string \<Rightarrow> 'w \<times> (error + unit)"

subsection \<open>The state of the cog\<close>

text \<open>
  The five mutable fields of \<open>ReactionCog.__init__\<close>, together with the platform's
  world and the log of the calls made so far.
\<close>

record 'w state =
  participants_order :: "int list"
  participants_names :: "int \<rightharpoonup> string"
  lineup_channel_id :: "int option"
  lineup_message_id :: "int option"
  anchor_messages :: "(int \<times> int) set"
  world :: 'w
  trace :: "call list"

definition target_role_ids :: "int set" where
  "target_role_ids = {776328568036392972, 1282865161945874543, 1416872124236431490}"

text \<open>The check mark U+2705, in UTF-8.\<close>

definition check_mark :: string where
  "check_mark = [CHR 0xE2, CHR 0x9C, CHR 0x85]"

definition reaction_emoji :: emoji_spec where
  "reaction_emoji = Unicode check_mark"

definition max_participants :: nat where
  "max_participants = 5"

definition init_state :: "'w \<Rightarrow> 'w state" where
  "init_state w =
     \<lparr>participants_order = [], participants_names = Map.empty,
      lineup_channel_id = None, lineup_message_id = None,
      anchor_messages = {}, world = w, trace = []\<rparr>"

text \<open>Python's truth value of an \<open>int | None\<close>: \<open>None\<close> and \<open>0\<close> are false.\<close>

definition truthy :: "int option \<Rightarrow> bool" where
  "truthy x = (case x of None \<Rightarrow> False | Some v \<Rightarrow> v \<noteq> 0)"

subsection \<open>Helpers: emoji matching, anchors, the roster\<close>

definition emoji_matches :: "emoji \<Rightarrow> emoji_spec \<Rightarrow> bool" where
  "emoji_matches emoji_obj expect =
     (case expect of
        CustomId i \<Rightarrow> emoji_id emoji_obj = Some i
      | Unicode s \<Rightarrow> emoji_name emoji_obj = Some s \<or> emoji_str emoji_obj = s)"

definition is_anchor :: "'w state \<Rightarrow> int \<Rightarrow> int \<Rightarrow> bool" where
  "is_anchor s channel_id message_id = ((channel_id, message_id) \<in> anchor_messages s)"

definition add_user :: "int \<Rightarrow> string \<Rightarrow> 'w state \<Rightarrow> bool \<times> 'w state" where
  "add_user uid display_name s =
     (if participants_names s uid \<noteq> None then (False, s)
      else if length (participants_order s) \<ge> max_participants then (False, s)
      else (True, s\<lparr>participants_order := participants_order s @ [uid],
                     participants_names := (participants_names s)(uid \<mapsto> display_name)\<rparr>))"

text \<open>
  \<open>list.remove\<close> deletes the first occurrence and raises \<open>ValueError\<close> when there is
  none; the exception leaves both fields as they were.
\<close>

definition remove_user :: "int \<Rightarrow> 'w state \<Rightarrow> (error + bool) \<times> 'w state" where
  "remove_user uid s =
     (if participants_names s uid = None then (Inr False, s)
      else if uid \<notin> set (participants_order s) then (Inl ValueError, s)
      else (Inr True, s\<lparr>participants_order := remove1 uid (participants_order s),
                         participants_names := (participants_names s)(uid := None)\<rparr>))"

subsection \<open>Rendering\<close>

definition digit_char :: "nat \<Rightarrow> char" where
  "digit_char d = ''0123456789'' ! (d mod 10)"

fun str_nat :: "nat \<Rightarrow> string" where
  "str_nat n = (if n < 10 then [digit_char n] else str_nat (n div 10) @ [digit_char (n mod 10)])"

declare str_nat.simps [simp del]

definition str_int :: "int \<Rightarrow> string" where
  "str_int i = (if i < 0 then CHR ''-'' # str_nat (nat (- i)) else str_nat (nat i))"

text \<open>\<open>sep.join(xs)\<close>\<close>

fun join :: "string \<Rightarrow> string list \<Rightarrow> string" where
  "join sep [] = []"
| "join sep [x] = x"
| "join sep (x # y # ys) = x @ sep @ join sep (y # ys)"

definition newline :: string where
  "newline = [CHR 0x0A]"

text \<open>The texts of the source, in UTF-8.\<close>

definition empty_text :: string where
  "empty_text = [CHR 0xF0, CHR 0x9F, CHR 0x93, CHR 0xAD] @ '' **Lineup is empty.** React with ''
                 @ check_mark @ '' to join.''"

definition plain_header :: string where
  "plain_header = [CHR 0xF0, CHR 0x9F, CHR 0x93, CHR 0x8B] @ '' **Current Lineup**''"

definition ready_mark :: string where
  "ready_mark = [CHR 0xF0, CHR 0x9F, CHR 0x93, CHR 0x8B] @ '' **Current Lineup (READY)**''"

definition em_dash :: string where
  "em_dash = [CHR 0xE2, CHR 0x80, CHR 0x94]"

definition mention :: "int \<Rightarrow> string" where
  "mention uid = ''<@'' @ str_int uid @ ''>''"

definition full_notice :: string where
  "full_notice = [CHR 0xE2, CHR 0x9A, CHR 0xA0, CHR 0xEF, CHR 0xB8, CHR 0x8F]
                  @ '' The lineup is already full (max 5).''"

definition cleared_text :: string where
  "cleared_text = [CHR 0xF0, CHR 0x9F, CHR 0xA7, CHR 0xB9]
                   @ '' Lineup cleared. Old mentions are no longer active.''"

text \<open>\<open>[self.participants_names[uid] for uid in self.participants_order]\<close>\<close>

fun lookup_names :: "(int \<rightharpoonup> string) \<Rightarrow> int list \<Rightarrow> error + string list" where
  "lookup_names m [] = Inr []"
| "lookup_names m (uid # uids) =
     (case m uid of
        None \<Rightarrow> Inl KeyError
      | Some n \<Rightarrow> (case lookup_names m uids of Inl e \<Rightarrow> Inl e | Inr ns \<Rightarrow> Inr (n # ns)))"

definition lineup_text :: "'w state \<Rightarrow> error + string" where
  "lineup_text s =
     (if participants_order s = [] then Inr empty_text
      else case lookup_names (participants_names s) (participants_order s) of
        Inl e \<Rightarrow> Inl e
      | Inr names \<Rightarrow>
          (let lines = map (\<lambda>(i, n). str_nat (i + 1) @ ''. '' @ n) (enumerate 0 names);
               header = (if length (participants_order s) = max_participants
                         then ready_mark @ '' '' @ em_dash @ '' ''
                              @ join '' '' (map mention (participants_order s))
                         else plain_header)
           in Inr (header @ newline @ join newline lines)))"

subsection \<open>Awaited platform calls\<close>

text \<open>
  Each wrapper makes one platform call: the world advances, the call and its result are
  appended to the log, and the result is handed back to the caller.
\<close>

definition do_fetch :: "'w platform \<Rightarrow> channel \<Rightarrow> int \<Rightarrow> 'w state \<Rightarrow> (error + message) \<times> 'w state" where
  "do_fetch P ch mid s =
     (case fetch_message P (world s) ch mid of
        (w, r) \<Rightarrow> (r, s\<lparr>world := w, trace := trace s @ [FetchMessage ch mid r]\<rparr>))"

definition do_send :: "'w platform \<Rightarrow> channel \<Rightarrow> string \<Rightarrow> 'w state \<Rightarrow> (error + message) \<times> 'w state" where
  "do_send P ch text s =
     (case send P (world s) ch text of
        (w, r) \<Rightarrow> (r, s\<lparr>world := w, trace := trace s @ [Send ch text r]\<rparr>))"

definition do_edit :: "'w platform \<Rightarrow> message \<Rightarrow> string \<Rightarrow> 'w state \<Rightarrow> (error + unit) \<times> 'w state" where
  "do_edit P msg text s =
     (case edit P (world s) msg text of
        (w, r) \<Rightarrow> (r, s\<lparr>world := w, trace := trace s @ [Edit msg text r]\<rparr>))"

definition do_add_reaction :: "'w platform \<Rightarrow> message \<Rightarrow> emoji_spec \<Rightarrow> 'w state \<Rightarrow> (error + unit) \<times> 'w state" where
  "do_add_reaction P msg e s =
     (case add_reaction P (world s) msg e of
        (w, r) \<Rightarrow> (r, s\<lparr>world := w, trace := trace s @ [AddReaction msg e r]\<rparr>))"

definition do_remove_reaction :: "'w platform \<Rightarrow> message \<Rightarrow> emoji \<Rightarrow> int \<Rightarrow> 'w state \<Rightarrow> (error + unit) \<times> 'w state" where
  "do_remove_reaction P msg e uid s =
     (case remove_reaction P (world s) msg e uid of
        (w, r) \<Rightarrow> (r, s\<lparr>world := w, trace := trace s @ [RemoveReaction msg e uid r]\<rparr>))"

definition do_defer :: "'w platform \<Rightarrow> interaction \<Rightarrow> 'w state \<Rightarrow> (error + unit) \<times> 'w state" where
  "do_defer P i s =
     (case response_defer P (world s) i of
        (w, r) \<Rightarrow> (r, s\<lparr>world := w, trace := trace s @ [Defer i r]\<rparr>))"

definition do_edit_original_response :: "'w platform \<Rightarrow> interaction \<Rightarrow> string \<Rightarrow> 'w state \<Rightarrow> (error + unit) \<times> 'w state" where
  "do_edit_original_response P i text s =
     (case edit_original_response P (world s) i text of
        (w, r) \<Rightarrow> (r, s\<lparr>world := w, trace := trace s @ [EditOriginalResponse i text r]\<rparr>))"

definition do_print :: "error \<Rightarrow> 'w state \<Rightarrow> 'w state" where
  "do_print e s = s\<lparr>trace := trace s @ [Print e]\<rparr>"

subsection \<open>The display message\<close>

text \<open>
  Lines 99-101 and 114-116 of the source are the same three statements: send the
  rendered lineup to \<open>channel\<close> and store the ids of the message that comes back. The
  text is rendered before the call, so a \<open>KeyError\<close> of the rendering stops it; an
  exception of \<open>send\<close> propagates and stores nothing.
\<close>

definition send_and_record :: "'w platform \<Rightarrow> channel \<Rightarrow> 'w state \<Rightarrow> (error + unit) \<times> 'w state" where
  "send_and_record P channel s =
     (case lineup_text s of
        Inl e \<Rightarrow> (Inl e, s)
      | Inr text \<Rightarrow>
          (case do_send P channel text s of
             (Inl e, s1) \<Rightarrow> (Inl e, s1)
           | (Inr msg, s1) \<Rightarrow>
               (Inr (), s1\<lparr>lineup_channel_id := Some (msg_channel msg),
                            lineup_message_id := Some (msg_id msg)\<rparr>)))"

text \<open>
  The guarded part of \<open>_ensure_lineup_message\<close>: \<open>True\<close> when the stored message was
  fetched (the method returns), \<open>False\<close> when control falls through to the send.
\<close>

definition stored_message_exists :: "'w platform \<Rightarrow> 'w state \<Rightarrow> bool \<times> 'w state" where
  "stored_message_exists P s =
     (if truthy (lineup_channel_id s) \<and> truthy (lineup_message_id s) then
        (case (lineup_channel_id s, lineup_message_id s) of
           (Some cid, Some mid) \<Rightarrow>
             (case get_channel P (world s) cid of
                None \<Rightarrow> (False, s)
              | Some ch \<Rightarrow>
                  (case do_fetch P ch mid s of
                     (Inr msg, s1) \<Rightarrow> (True, s1)
                   | (Inl e, s1) \<Rightarrow> (False, s1)))
         | _ \<Rightarrow> (False, s))
      else (False, s))"

definition ensure_lineup_message :: "'w platform \<Rightarrow> channel \<Rightarrow> 'w state \<Rightarrow> (error + unit) \<times> 'w state" where
  "ensure_lineup_message P channel s =
     (case stored_message_exists P s of
        (True, s1) \<Rightarrow> (Inr (), s1)
      | (False, s1) \<Rightarrow> send_and_record P channel s1)"

text \<open>The \<open>try\<close> block of \<open>_update_lineup_message\<close>: fetch, render, edit.\<close>

definition fetch_and_edit :: "'w platform \<Rightarrow> channel \<Rightarrow> int \<Rightarrow> 'w state \<Rightarrow> (error + unit) \<times> 'w state" where
  "fetch_and_edit P ch mid s =
     (case do_fetch P ch mid s of
        (Inl e, s1) \<Rightarrow> (Inl e, s1)
      | (Inr msg, s1) \<Rightarrow>
          (case lineup_text s1 of
             Inl e \<Rightarrow> (Inl e, s1)
           | Inr text \<Rightarrow> do_edit P msg text s1))"

definition update_lineup_message :: "'w platform \<Rightarrow> channel \<Rightarrow> 'w state \<Rightarrow> (error + unit) \<times> 'w state" where
  "update_lineup_message P channel s =
     (case ensure_lineup_message P channel s of
        (Inl e, s1) \<Rightarrow> (Inl e, s1)
      | (Inr u, s1) \<Rightarrow>
          (let ch = (if truthy (lineup_channel_id s1)
                     then (case lineup_channel_id s1 of
                             Some cid \<Rightarrow> get_channel P (world s1) cid
                           | None \<Rightarrow> None)
                     else None)
           in case ch of
                None \<Rightarrow> (Inr (), s1)
              | Some c \<Rightarrow>
                  (case lineup_message_id s1 of
                     None \<Rightarrow> (Inr (), s1)
                   | Some mid \<Rightarrow>
                       if mid = 0 then (Inr (), s1)
                       else (case fetch_and_edit P c mid s1 of
                               (Inr v, s2) \<Rightarrow> (Inr (), s2)
                             | (Inl e, s2) \<Rightarrow> send_and_record P channel s2))))"

subsection \<open>Retracting the bot's reaction\<close>

text \<open>
  The loop over \<open>msg.reactions\<close>: the result of each \<open>remove_reaction\<close> is dropped,
  as \<open>except Exception: pass\<close> does.
\<close>

fun remove_matching :: "'w platform \<Rightarrow> message \<Rightarrow> emoji list \<Rightarrow> 'w state \<Rightarrow> 'w state" where
  "remove_matching P msg [] s = s"
| "remove_matching P msg (r # rs) s =
     (if emoji_matches r reaction_emoji
      then (case do_remove_reaction P msg r (bot_user_id P) s of
              (res, s1) \<Rightarrow> remove_matching P msg rs s1)
      else remove_matching P msg rs s)"

definition remove_bots_reaction_on :: "'w platform \<Rightarrow> int \<Rightarrow> int \<Rightarrow> 'w state \<Rightarrow> (error + unit) \<times> 'w state" where
  "remove_bots_reaction_on P channel_id message_id s =
     (case get_channel P (world s) channel_id of
        None \<Rightarrow> (Inr (), s)
      | Some ch \<Rightarrow>
          (case do_fetch P ch message_id s of
             (Inl e, s1) \<Rightarrow> (Inr (), s1)
           | (Inr msg, s1) \<Rightarrow> (Inr (), remove_matching P msg (msg_reactions msg) s1)))"

subsection \<open>Listeners\<close>

definition on_ready :: "'w state \<Rightarrow> 'w state" where
  "on_ready s = s\<lparr>participants_order := [], participants_names := Map.empty,
                   anchor_messages := {}\<rparr>"

text \<open>
  Two users are equal when their ids are. The whole body after the role test is inside
  \<open>try\<close>: any exception is printed and the handler returns normally, with whatever
  was already stored.
\<close>

definition on_message :: "'w platform \<Rightarrow> message \<Rightarrow> 'w state \<Rightarrow> (error + unit) \<times> 'w state" where
  "on_message P message s =
     (if user_id (msg_author message) = bot_user_id P then (Inr (), s)
      else if list_ex (\<lambda>role. role \<in> target_role_ids) (msg_role_mentions message) then
        (case do_add_reaction P message reaction_emoji s of
           (Inl e, s1) \<Rightarrow> (Inr (), do_print e s1)
         | (Inr u, s1) \<Rightarrow>
             (let s2 = s1\<lparr>anchor_messages :=
                            insert (msg_channel message, msg_id message) (anchor_messages s1)\<rparr>
              in case add_user (user_id (msg_author message))
                               (user_display_name (msg_author message)) s2 of
                   (True, s3) \<Rightarrow>
                     (case update_lineup_message P (msg_channel message) s3 of
                        (Inl e, s4) \<Rightarrow> (Inr (), do_print e s4)
                      | (Inr v, s4) \<Rightarrow> (Inr (), s4))
                 | (False, s3) \<Rightarrow> (Inr (), s3)))
      else (Inr (), s))"

definition on_reaction_add :: "'w platform \<Rightarrow> reaction \<Rightarrow> user \<Rightarrow> 'w state \<Rightarrow> (error + unit) \<times> 'w state" where
  "on_reaction_add P reaction usr s =
     (if user_id usr = bot_user_id P then (Inr (), s)
      else if \<not> emoji_matches (reaction_emoji_of reaction) reaction_emoji then (Inr (), s)
      else if \<not> is_anchor s (msg_channel (reaction_message reaction))
                             (msg_id (reaction_message reaction)) then (Inr (), s)
      else
        (let display = (if user_is_member usr then user_display_name usr else user_name usr)
         in case add_user (user_id usr) display s of
              (True, s1) \<Rightarrow> update_lineup_message P (msg_channel (reaction_message reaction)) s1
            | (False, s1) \<Rightarrow>
                if length (participants_order s1) \<ge> max_participants
                then (case do_send P (msg_channel (reaction_message reaction)) full_notice s1 of
                        (res, s2) \<Rightarrow> (Inr (), s2))
                else (Inr (), s1)))"

definition on_raw_reaction_add :: "'w platform \<Rightarrow> raw_payload \<Rightarrow> 'w state \<Rightarrow> (error + unit) \<times> 'w state" where
  "on_raw_reaction_add P payload s =
     (if payload_user_id payload = bot_user_id P then (Inr (), s)
      else if \<not> emoji_matches (payload_emoji payload) reaction_emoji then (Inr (), s)
      else if \<not> is_anchor s (payload_channel_id payload) (payload_message_id payload)
        then (Inr (), s)
      else
        (let guild = (if truthy (payload_guild_id payload)
                      then (case payload_guild_id payload of
                              Some gid \<Rightarrow> get_guild P (world s) gid
                            | None \<Rightarrow> None)
                      else None);
             display = (case guild of
                          None \<Rightarrow> ''user_'' @ str_int (payload_user_id payload)
                        | Some g \<Rightarrow>
                            (case get_member P (world s) g (payload_user_id payload) of
                               None \<Rightarrow> ''user_'' @ str_int (payload_user_id payload)
                             | Some member \<Rightarrow> user_display_name member))
         in case get_channel P (world s) (payload_channel_id payload) of
              None \<Rightarrow> (Inr (), s)
            | Some ch \<Rightarrow>
                (case add_user (payload_user_id payload) display s of
                   (True, s1) \<Rightarrow> update_lineup_message P ch s1
                 | (False, s1) \<Rightarrow> (Inr (), s1))))"

definition on_reaction_remove :: "'w platform \<Rightarrow> reaction \<Rightarrow> user \<Rightarrow> 'w state \<Rightarrow> (error + unit) \<times> 'w state" where
  "on_reaction_remove P reaction usr s =
     (if user_id usr = bot_user_id P then (Inr (), s)
      else if \<not> emoji_matches (reaction_emoji_of reaction) reaction_emoji then (Inr (), s)
      else if \<not> is_anchor s (msg_channel (reaction_message reaction))
                             (msg_id (reaction_message reaction)) then (Inr (), s)
      else
        (case remove_user (user_id usr) s of
           (Inl e, s1) \<Rightarrow> (Inl e, s1)
         | (Inr True, s1) \<Rightarrow> update_lineup_message P (msg_channel (reaction_message reaction)) s1
         | (Inr False, s1) \<Rightarrow> (Inr (), s1)))"

definition on_raw_reaction_remove :: "'w platform \<Rightarrow> raw_payload \<Rightarrow> 'w state \<Rightarrow> (error + unit) \<times> 'w state" where
  "on_raw_reaction_remove P payload s =
     (if payload_user_id payload = bot_user_id P then (Inr (), s)
      else if \<not> emoji_matches (payload_emoji payload) reaction_emoji then (Inr (), s)
      else if \<not> is_anchor s (payload_channel_id payload) (payload_message_id payload)
        then (Inr (), s)
      else
        (case get_channel P (world s) (payload_channel_id payload) of
           None \<Rightarrow> (Inr (), s)
         | Some ch \<Rightarrow>
             (case remove_user (payload_user_id payload) s of
                (Inl e, s1) \<Rightarrow> (Inl e, s1)
              | (Inr True, s1) \<Rightarrow> update_lineup_message P ch s1
              | (Inr False, s1) \<Rightarrow> (Inr (), s1))))"

subsection \<open>The clear command\<close>

text \<open>The loop \<open>for ch_id, msg_id in anchors\<close>; an exception would leave it at once.\<close>

fun retract_all :: "'w platform \<Rightarrow> (int \<times> int) list \<Rightarrow> 'w state \<Rightarrow> (error + unit) \<times> 'w state" where
  "retract_all P [] s = (Inr (), s)"
| "retract_all P ((ch_id, mid) # anchors) s =
     (case remove_bots_reaction_on P ch_id mid s of
        (Inl e, s1) \<Rightarrow> (Inl e, s1)
      | (Inr u, s1) \<Rightarrow> retract_all P anchors s1)"

text \<open>
  \<open>list(self.anchor_messages)\<close> enumerates a set in an order the language leaves open:
  \<open>enum\<close> is that enumeration, and the theorems below only ask that it lists the
  elements of the set.
\<close>

definition clear :: "'w platform \<Rightarrow> ((int \<times> int) set \<Rightarrow> (int \<times> int) list) \<Rightarrow> interaction \<Rightarrow> 'w state
                     \<Rightarrow> (error + unit) \<times> 'w state" where
  "clear P enum i s =
     (case do_defer P i s of
        (Inl e, s1) \<Rightarrow> (Inl e, s1)
      | (Inr u, s1) \<Rightarrow>
          (let s2 = s1\<lparr>participants_order := [], participants_names := Map.empty\<rparr>;
               anchors = enum (anchor_messages s2);
               s3 = s2\<lparr>anchor_messages := {}\<rparr>
           in case retract_all P anchors s3 of
                (Inl e, s4) \<Rightarrow> (Inl e, s4)
              | (Inr v, s4) \<Rightarrow>
                  (case update_lineup_message P (interaction_channel i) s4 of
                     (Inl e, s5) \<Rightarrow> (Inl e, s5)
                   | (Inr x, s5) \<Rightarrow> do_edit_original_response P i cleared_text s5)))"

subsection \<open>The roster as a state machine\<close>

text \<open>
  The invariant of the roster: no id twice, at most \<open>max_participants\<close> ids, and the
  ids of the order list are the keys of the name mapping.
\<close>

definition roster_inv :: "'w state \<Rightarrow> bool" where
  "roster_inv s =
     (distinct (participants_order s)
      \<and> length (participants_order s) \<le> max_participants
      \<and> set (participants_order s) = dom (participants_names s))"

text \<open>A call of \<open>_add_user\<close> or of \<open>_remove_user\<close>, and a sequence of such calls.\<close>

datatype roster_op = TryAdd int string | TryRemove int

fun apply_op :: "roster_op \<Rightarrow> 'w state \<Rightarrow> 'w state" where
  "apply_op (TryAdd uid name) s = snd (add_user uid name s)"
| "apply_op (TryRemove uid) s = snd (remove_user uid s)"

fun run_ops :: "roster_op list \<Rightarrow> 'w state \<Rightarrow> 'w state" where
  "run_ops [] s = s"
| "run_ops (op # ops) s = run_ops ops (apply_op op s)"

subsection \<open>The rendering as the specification words it\<close>

text \<open>
  The specification of \<open>render\<close>, written on its own, with its own texts and its own
  decimal numerals: the empty-state text on an empty roster; otherwise a header, then one
  line per participant, each after a line feed, numbered from 1 in join order; the header
  is the ready one, followed by a mention of every participant in order, when the size is
  the capacity of 5. A digit is the character of code 48 plus its value, and
  \<open>decimal_value\<close> reads a numeral back.
\<close>

definition spec_digit :: "nat \<Rightarrow> char" where
  "spec_digit d = char_of (48 + d)"

fun decimal :: "nat \<Rightarrow> string" where
  "decimal n = (if n < 10 then [spec_digit n] else decimal (n div 10) @ [spec_digit (n mod 10)])"

declare decimal.simps [simp del]

definition decimal_int :: "int \<Rightarrow> string" where
  "decimal_int i = (if i < 0 then ''-'' @ decimal (nat (- i)) else decimal (nat i))"

definition digit_value :: "char \<Rightarrow> nat" where
  "digit_value c = of_char c - 48"

definition decimal_value :: "string \<Rightarrow> nat" where
  "decimal_value ds = foldl (\<lambda>a c. 10 * a + digit_value c) 0 ds"

fun spec_lines :: "nat \<Rightarrow> string list \<Rightarrow> string" where
  "spec_lines k [] = []"
| "spec_lines k (n # ns) = [CHR 0x0A] @ decimal k @ ''. '' @ n @ spec_lines (Suc k) ns"

fun spec_mentions :: "int list \<Rightarrow> string" where
  "spec_mentions [] = []"
| "spec_mentions (uid # uids) = '' <@'' @ decimal_int uid @ ''>'' @ spec_mentions uids"

definition render_spec :: "(int \<times> string) list \<Rightarrow> string" where
  "render_spec entries =
     (if entries = []
      then [CHR 0xF0, CHR 0x9F, CHR 0x93, CHR 0xAD] @ '' **Lineup is empty.** React with ''
           @ [CHR 0xE2, CHR 0x9C, CHR 0x85] @ '' to join.''
      else (if length entries = 5
            then [CHR 0xF0, CHR 0x9F, CHR 0x93, CHR 0x8B] @ '' **Current Lineup (READY)** ''
                 @ [CHR 0xE2, CHR 0x80, CHR 0x94] @ spec_mentions (map fst entries)
            else [CHR 0xF0, CHR 0x9F, CHR 0x93, CHR 0x8B] @ '' **Current Lineup**'')
           @ spec_lines 1 (map snd entries))"

definition has_ready_header :: "string \<Rightarrow> bool" where
  "has_ready_header t =
     (take 31 t = [CHR 0xF0, CHR 0x9F, CHR 0x93, CHR 0x8B] @ '' **Current Lineup (READY)**'')"

subsection \<open>Sample rosters\<close>

definition lineup3 :: "unit state" where
  "lineup3 = (init_state ())\<lparr>participants_order := [1, 2, 3],
                participants_names := [1 \<mapsto> ''ann'', 2 \<mapsto> ''bob'', 3 \<mapsto> ''cy'']\<rparr>"

definition lineup5 :: "unit state" where
  "lineup5 = (init_state ())\<lparr>participants_order := [11, 12, 13, 14, 15],
                participants_names := [11 \<mapsto> ''ann'', 12 \<mapsto> ''bob'', 13 \<mapsto> ''cy'',
                                       14 \<mapsto> ''dee'', 15 \<mapsto> ''eve'']\<rparr>"

subsection \<open>A scripted platform\<close>

text \<open>
  A platform for concrete runs. Its world is the list of outcomes of the awaited calls
  still to come (\<open>True\<close> is success; past the end of the list every call succeeds) and
  the id of the next message sent. Every channel is in the cache.
\<close>

type_synonym script_world = "bool list \<times> int"

definition outcome :: "bool list \<Rightarrow> bool" where
  "outcome script = (case script of [] \<Rightarrow> True | b # bs \<Rightarrow> b)"

definition advance :: "bool list \<Rightarrow> bool list" where
  "advance script = (case script of [] \<Rightarrow> [] | b # bs \<Rightarrow> bs)"

definition bot_user :: user where
  "bot_user = \<lparr>user_id = 999, user_name = ''lineup-bot'',
               user_display_name = ''lineup-bot'', user_is_member = False\<rparr>"

definition check_emoji :: emoji where
  "check_emoji = \<lparr>emoji_name = Some check_mark, emoji_id = None, emoji_str = check_mark\<rparr>"

definition stored_message :: "channel \<Rightarrow> int \<Rightarrow> message" where
  "stored_message ch mid =
     \<lparr>msg_channel = ch, msg_id = mid, msg_author = bot_user,
      msg_role_mentions = [], msg_reactions = [check_emoji]\<rparr>"

definition scripted :: "script_world platform" where
  "scripted =
     \<lparr>bot_user_id = 999,
      get_channel = (\<lambda>w cid. Some cid),
      get_guild = (\<lambda>w gid. Some gid),
      get_member = (\<lambda>w gid uid. None),
      fetch_message = (\<lambda>(script, n) ch mid.
         ((advance script, n),
          if outcome script then Inr (stored_message ch mid) else Inl NotFound)),
      send = (\<lambda>(script, n) ch text.
         ((advance script, n + 1),
          if outcome script then Inr (stored_message ch n) else Inl HTTPException)),
      edit = (\<lambda>(script, n) msg text.
         ((advance script, n), if outcome script then Inr () else Inl NotFound)),
      add_reaction = (\<lambda>(script, n) msg e.
         ((advance script, n), if outcome script then Inr () else Inl Forbidden)),
      remove_reaction = (\<lambda>(script, n) msg e uid.
         ((advance script, n), if outcome script then Inr () else Inl Forbidden)),
      response_defer = (\<lambda>(script, n) i.
         ((advance script, n), if outcome script then Inr () else Inl NotFound)),
      edit_original_response = (\<lambda>(script, n) i text.
         ((advance script, n), if outcome script then Inr () else Inl HTTPException))\<rparr>"

text \<open>The same platform with an empty channel cache.\<close>

definition uncached :: "script_world platform" where
  "uncached = scripted\<lparr>get_channel := (\<lambda>w cid. None)\<rparr>"

text \<open>
  A member reacting with the check mark, the message \<open>(10, 100)\<close> they react on, the same
  event in its raw form, and a lineup of three with that message as its anchor.
\<close>

definition fay :: user where
  "fay = \<lparr>user_id = 4, user_name = ''fay01'', user_display_name = ''fay'',
          user_is_member = True\<rparr>"

definition call_message :: message where
  "call_message =
     \<lparr>msg_channel = 10, msg_id = 100, msg_author = fay,
      msg_role_mentions = [776328568036392972], msg_reactions = []\<rparr>"

definition check_reaction :: "message \<Rightarrow> reaction" where
  "check_reaction m = \<lparr>reaction_emoji_of = check_emoji, reaction_message = m\<rparr>"

definition raw_check :: "int \<Rightarrow> int \<Rightarrow> int \<Rightarrow> raw_payload" where
  "raw_check uid cid mid =
     \<lparr>payload_user_id = uid, payload_emoji = check_emoji, payload_channel_id = cid,
      payload_message_id = mid, payload_guild_id = Some 1\<rparr>"

definition anchored3 :: "bool list \<Rightarrow> script_world state" where
  "anchored3 script =
     \<lparr>participants_order = [1, 2, 3],
      participants_names = [1 \<mapsto> ''ann'', 2 \<mapsto> ''bob'', 3 \<mapsto> ''cy''],
      lineup_channel_id = Some 10, lineup_message_id = Some 200,
      anchor_messages = {(10, 100)}, world = (script, 500), trace = []\<rparr>"

subsection \<open>Reading the log\<close>

text \<open>
  The calls a handler added to the log, how many of them send or edit a message, whether
  one of them sends the notice of a full lineup, and the calls that the display update
  and the retraction of a reaction may make. \<open>io_step Q ns ne s s'\<close> says that from
  \<open>s\<close> to \<open>s'\<close> the roster and the anchors are the same and the log grew by calls that
  satisfy \<open>Q\<close>, at most \<open>ns\<close> sends and \<open>ne\<close> edits among them.
\<close>

definition new_calls :: "'w state \<Rightarrow> 'w state \<Rightarrow> call list" where
  "new_calls s s' = drop (length (trace s)) (trace s')"

definition is_send :: "call \<Rightarrow> bool" where
  "is_send c = (case c of Send ch text r \<Rightarrow> True | _ \<Rightarrow> False)"

definition is_edit :: "call \<Rightarrow> bool" where
  "is_edit c = (case c of Edit msg text r \<Rightarrow> True | _ \<Rightarrow> False)"

definition count_sends :: "call list \<Rightarrow> nat" where
  "count_sends cs = length (filter is_send cs)"

definition count_edits :: "call list \<Rightarrow> nat" where
  "count_edits cs = length (filter is_edit cs)"

definition is_full_notice :: "call \<Rightarrow> bool" where
  "is_full_notice c = (case c of Send ch text r \<Rightarrow> text = full_notice | _ \<Rightarrow> False)"

definition notice_sent :: "call list \<Rightarrow> bool" where
  "notice_sent cs = list_ex is_full_notice cs"

definition display_call :: "channel \<Rightarrow> error + string \<Rightarrow> call \<Rightarrow> bool" where
  "display_call channel rendered c =
     (case c of
        FetchMessage ch mid r \<Rightarrow> True
      | Send ch text r \<Rightarrow> ch = channel \<and> rendered = Inr text
      | Edit msg text r \<Rightarrow> rendered = Inr text
      | _ \<Rightarrow> False)"

definition retract_call :: "call \<Rightarrow> bool" where
  "retract_call c =
     (case c of
        FetchMessage ch mid r \<Rightarrow> True
      | RemoveReaction msg e uid r \<Rightarrow> True
      | _ \<Rightarrow> False)"

definition io_step :: "(call \<Rightarrow> bool) \<Rightarrow> nat \<Rightarrow> nat \<Rightarrow> 'w state \<Rightarrow> 'w state \<Rightarrow> bool" where
  "io_step Q ns ne s s' =
     (participants_order s' = participants_order s
      \<and> participants_names s' = participants_names s
      \<and> anchor_messages s' = anchor_messages s
      \<and> (\<exists>new. trace s' = trace s @ new \<and> list_all Q new
                \<and> count_sends new \<le> ns \<and> count_edits new \<le> ne))"

subsection \<open>The notice of a full lineup\<close>

text \<open>
  \<open>_add_user\<close> fails because the roster is full when it passes the test for the id and
  returns at the test for the capacity.
\<close>

definition fails_because_full :: "int \<Rightarrow> 'w state \<Rightarrow> bool" where
  "fails_because_full uid s =
     (participants_names s uid = None \<and> length (participants_order s) \<ge> max_participants)"

text \<open>A participant of the full lineup, and that lineup with one anchor.\<close>

definition ann :: user where
  "ann = \<lparr>user_id = 11, user_name = ''ann01'', user_display_name = ''ann'',
          user_is_member = True\<rparr>"

definition anchored5 :: "bool list \<Rightarrow> script_world state" where
  "anchored5 script =
     \<lparr>participants_order = [11, 12, 13, 14, 15],
      participants_names = [11 \<mapsto> ''ann'', 12 \<mapsto> ''bob'', 13 \<mapsto> ''cy'',
                            14 \<mapsto> ''dee'', 15 \<mapsto> ''eve''],
      lineup_channel_id = Some 10, lineup_message_id = Some 200,
      anchor_messages = {(10, 100)}, world = (script, 500), trace = []\<rparr>"

subsection \<open>The display update\<close>

text \<open>
  The last call of a list is a \<open>send\<close> that raised \<open>e\<close>; the texts of two sample
  lineups; and the state at a first join, with no display message stored yet.
\<close>

definition send_failed_last :: "error \<Rightarrow> call list \<Rightarrow> bool" where
  "send_failed_last e cs =
     (cs \<noteq> [] \<and> (case last cs of Send ch rendered r \<Rightarrow> r = Inl e | _ \<Rightarrow> False))"

definition text3 :: string where
  "text3 = plain_header @ newline @ ''1. ann'' @ newline @ ''2. bob'' @ newline @ ''3. cy''"

definition text1 :: string where
  "text1 = plain_header @ newline @ ''1. ann''"

definition first_join :: "bool list \<Rightarrow> script_world state" where
  "first_join script =
     \<lparr>participants_order = [1], participants_names = [1 \<mapsto> ''ann''],
      lineup_channel_id = None, lineup_message_id = None,
      anchor_messages = {(10, 100)}, world = (script, 500), trace = []\<rparr>"

subsection \<open>The clear command, step by step\<close>

text \<open>
  The state of \<open>clear\<close> when the loop over the old anchors starts: the response is
  deferred, the roster and the anchor set are empty.
\<close>

definition cleared :: "'w \<Rightarrow> interaction \<Rightarrow> 'w state \<Rightarrow> 'w state" where
  "cleared w i s =
     s\<lparr>world := w, trace := trace s @ [Defer i (Inr ())],
       participants_order := [], participants_names := Map.empty, anchor_messages := {}\<rparr>"

text \<open>\<open>_remove_bots_reaction_on\<close> run on every anchor of a list, one after the other.\<close>

definition retract_each :: "'w platform \<Rightarrow> (int \<times> int) list \<Rightarrow> 'w state \<Rightarrow> 'w state" where
  "retract_each P anchors s =
     foldl (\<lambda>st (ch_id, mid). snd (remove_bots_reaction_on P ch_id mid st)) s anchors"

text \<open>
  A lineup of three with two anchors, an enumeration of the subsets of these two anchors,
  and the interaction of a \<open>/clear\<close> in channel 10.
\<close>

definition two_anchors :: "bool list \<Rightarrow> script_world state" where
  "two_anchors script =
     \<lparr>participants_order = [1, 2, 3],
      participants_names = [1 \<mapsto> ''ann'', 2 \<mapsto> ''bob'', 3 \<mapsto> ''cy''],
      lineup_channel_id = Some 10, lineup_message_id = Some 200,
      anchor_messages = {(10, 100), (10, 101)}, world = (script, 500), trace = []\<rparr>"

definition enum2 :: "(int \<times> int) set \<Rightarrow> (int \<times> int) list" where
  "enum2 A = filter (\<lambda>a. a \<in> A) [(10, 100), (10, 101)]"

definition slash :: interaction where
  "slash = \<lparr>interaction_id = 1, interaction_channel = 10\<rparr>"

text \<open>
  The retraction on the anchor \<open>(ch_id, mid)\<close> was attempted by a list of calls: the
  message was fetched and, when the fetch returned it, the removal of the bot's reaction
  was called for every reaction of the message whose emoji matches.
\<close>

definition retraction_attempted :: "'w platform \<Rightarrow> int \<Rightarrow> int \<Rightarrow> call list \<Rightarrow> bool" where
  "retraction_attempted P ch_id mid calls =
     (\<exists>res. FetchMessage ch_id mid res \<in> set calls
        \<and> (case res of
              Inl e \<Rightarrow> True
            | Inr msg \<Rightarrow>
                list_all (\<lambda>r. \<exists>x. RemoveReaction msg r (bot_user_id P) x \<in> set calls)
                         (filter (\<lambda>r. emoji_matches r reaction_emoji) (msg_reactions msg))))"

section \<open>Properties\<close>

subsection \<open>The roster invariant\<close>

lemma roster_inv_init: "roster_inv (init_state w)"
  by (simp add: roster_inv_def init_state_def)

lemma roster_inv_add_user: "roster_inv s \<Longrightarrow> roster_inv (snd (add_user uid name s))"
  by (auto simp: roster_inv_def add_user_def max_participants_def domIff)

lemma roster_inv_remove_user: "roster_inv s \<Longrightarrow> roster_inv (snd (remove_user uid s))"
  by (auto simp: roster_inv_def remove_user_def max_participants_def domIff length_remove1
           split: if_splits)

lemma roster_inv_apply_op: "roster_inv s \<Longrightarrow> roster_inv (apply_op op s)"
  by (cases op) (simp_all add: roster_inv_add_user roster_inv_remove_user)

lemma roster_inv_run_ops: "roster_inv s \<Longrightarrow> roster_inv (run_ops ops s)"
  by (induction ops arbitrary: s) (simp_all add: roster_inv_apply_op)

text \<open>
  C1. After any sequence of \<open>_add_user\<close> and \<open>_remove_user\<close> calls from the empty
  roster, no user id occurs twice in the order list, the list has at most 5 entries, and
  an id is in the list exactly when it is a key of the name mapping.
\<close>

theorem roster_invariant:
  "distinct (participants_order (run_ops ops (init_state w)))
   \<and> length (participants_order (run_ops ops (init_state w))) \<le> 5
   \<and> set (participants_order (run_ops ops (init_state w)))
       = dom (participants_names (run_ops ops (init_state w)))"
  using roster_inv_run_ops [OF roster_inv_init, of ops w]
  by (simp add: roster_inv_def max_participants_def)

subsection \<open>Adding and removing a user\<close>

text \<open>
  C5. \<open>_add_user\<close> returns \<open>False\<close> and changes nothing when the id is already a
  key of the name mapping or the order list holds 5 ids; otherwise it appends the id to
  the order list, stores the display name and returns \<open>True\<close>. A second call with the
  same id, right after the first, returns \<open>False\<close> and changes nothing.
\<close>

theorem add_user_spec:
  "(participants_names s uid \<noteq> None \<or> length (participants_order s) \<ge> 5
      \<longrightarrow> add_user uid name s = (False, s))
   \<and> (participants_names s uid = None \<and> length (participants_order s) < 5
      \<longrightarrow> add_user uid name s
            = (True, s\<lparr>participants_order := participants_order s @ [uid],
                        participants_names := (participants_names s)(uid \<mapsto> name)\<rparr>))
   \<and> add_user uid name' (snd (add_user uid name s)) = (False, snd (add_user uid name s))"
  by (auto simp: add_user_def max_participants_def)

theorem add_user_spec_witness:
  "add_user 7 ''ann'' (init_state ())
     = (True, (init_state ())\<lparr>participants_order := [7],
                               participants_names := [7 \<mapsto> ''ann'']\<rparr>)
   \<and> add_user 7 ''bob'' (snd (add_user 7 ''ann'' (init_state ())))
     = (False, snd (add_user 7 ''ann'' (init_state ())))"
proof -
  have free: "participants_names (init_state ()) 7 = None
              \<and> length (participants_order (init_state ())) < 5"
    by (simp add: init_state_def)
  have order: "participants_order (init_state ()) = []"
    and names: "participants_names (init_state ()) = Map.empty"
    by (simp_all add: init_state_def)
  note spec = add_user_spec [of "init_state ()" 7 "''ann''" "''bob''"]
  from spec free have first: "add_user 7 ''ann'' (init_state ())
     = (True, (init_state ())\<lparr>participants_order := [7],
                               participants_names := [7 \<mapsto> ''ann'']\<rparr>)"
    by (simp add: order names)
  from spec have second: "add_user 7 ''bob'' (snd (add_user 7 ''ann'' (init_state ())))
     = (False, snd (add_user 7 ''ann'' (init_state ())))"
    by simp
  from first second show ?thesis by simp
qed

lemma remove1_distinct_filter:
  "distinct xs \<Longrightarrow> remove1 x xs = filter (\<lambda>v. v \<noteq> x) xs"
proof -
  assume "distinct xs"
  then have "remove1 x xs = filter (\<lambda>y. x \<noteq> y) xs"
    by (simp add: distinct_remove1_removeAll removeAll_filter_not_eq)
  also have "\<dots> = filter (\<lambda>v. v \<noteq> x) xs"
    by (rule filter_cong) auto
  finally show ?thesis .
qed

text \<open>
  C6. \<open>_remove_user\<close> returns \<open>False\<close> and changes nothing when the id is not a key
  of the name mapping. On a roster that satisfies the invariant and holds the id, it
  returns \<open>True\<close>, the id is gone from the order list and from the name mapping, and the
  order list is the old one without that id, the others in their old order.
\<close>

theorem remove_user_spec:
  "(participants_names s uid = None \<longrightarrow> remove_user uid s = (Inr False, s))
   \<and> (roster_inv s \<and> participants_names s uid \<noteq> None \<longrightarrow>
        fst (remove_user uid s) = Inr True
      \<and> participants_order (snd (remove_user uid s))
          = filter (\<lambda>v. v \<noteq> uid) (participants_order s)
      \<and> uid \<notin> set (participants_order (snd (remove_user uid s)))
      \<and> participants_names (snd (remove_user uid s)) = (participants_names s)(uid := None)
      \<and> roster_inv (snd (remove_user uid s)))"
proof (intro conjI impI)
  assume "participants_names s uid = None"
  then show "remove_user uid s = (Inr False, s)" by (simp add: remove_user_def)
next
  assume h: "roster_inv s \<and> participants_names s uid \<noteq> None"
  then have mem: "uid \<in> set (participants_order s)" and d: "distinct (participants_order s)"
    by (auto simp: roster_inv_def)
  from h mem show "fst (remove_user uid s) = Inr True" by (simp add: remove_user_def)
  from h mem d show "participants_order (snd (remove_user uid s))
          = filter (\<lambda>v. v \<noteq> uid) (participants_order s)"
    by (auto simp: remove_user_def remove1_distinct_filter)
  from h mem d show "uid \<notin> set (participants_order (snd (remove_user uid s)))"
    by (simp add: remove_user_def)
  from h mem show "participants_names (snd (remove_user uid s)) = (participants_names s)(uid := None)"
    by (auto simp: remove_user_def)
  from h show "roster_inv (snd (remove_user uid s))" by (simp add: roster_inv_remove_user)
qed

theorem remove_user_spec_witness:
  "remove_user 9 lineup3 = (Inr False, lineup3)
   \<and> fst (remove_user 2 lineup3) = Inr True
   \<and> participants_order (snd (remove_user 2 lineup3)) = [1, 3]
   \<and> participants_names (snd (remove_user 2 lineup3)) 2 = None"
proof -
  have absent: "participants_names lineup3 9 = None"
    by (simp add: lineup3_def init_state_def)
  have present: "roster_inv lineup3 \<and> participants_names lineup3 2 \<noteq> None"
    by (auto simp: lineup3_def init_state_def roster_inv_def max_participants_def)
  have order: "participants_order lineup3 = [1, 2, 3]"
    by (simp add: lineup3_def)
  show ?thesis
    using absent present remove_user_spec [of lineup3 9] remove_user_spec [of lineup3 2]
    by (simp add: order)
qed

subsection \<open>Rendering\<close>

lemma small_digit: "d < 10 \<Longrightarrow> d \<in> {0, 1, 2, 3, 4, 5, 6, 7, 8, 9::nat}"
  by auto

lemma digit_char_spec: "d < 10 \<Longrightarrow> digit_char d = spec_digit d"
  by (drule small_digit) (auto simp: digit_char_def spec_digit_def char_of_def bit_Suc_0_iff)

lemma digit_value_spec: "d < 10 \<Longrightarrow> digit_value (spec_digit d) = d"
  by (simp add: digit_value_def spec_digit_def of_char_of take_bit_nat_eq_self)

lemma str_nat_decimal: "str_nat n = decimal n"
proof (induction n rule: str_nat.induct)
  case (1 n)
  show ?case
  proof (cases "n < 10")
    case True
    then show ?thesis by (simp add: str_nat.simps [of n] decimal.simps [of n] digit_char_spec)
  next
    case False
    with "1" show ?thesis
      by (simp add: str_nat.simps [of n] decimal.simps [of n] digit_char_spec)
  qed
qed

lemma decimal_value_snoc: "decimal_value (ds @ [c]) = 10 * decimal_value ds + digit_value c"
  by (simp add: decimal_value_def)

lemma decimal_value_decimal: "decimal_value (decimal n) = n"
proof (induction n rule: decimal.induct)
  case (1 n)
  show ?case
  proof (cases "n < 10")
    case True
    then show ?thesis
      by (simp add: decimal.simps [of n] decimal_value_def digit_value_spec)
  next
    case False
    with "1" show ?thesis
      by (simp add: decimal.simps [of n] decimal_value_snoc digit_value_spec)
  qed
qed

lemma str_int_decimal: "str_int i = decimal_int i"
  by (simp add: str_int_def decimal_int_def str_nat_decimal)

lemma lookup_names_total:
  "set uids \<subseteq> dom m \<Longrightarrow> lookup_names m uids = Inr (map (\<lambda>uid. the (m uid)) uids)"
  by (induction uids) auto

lemma join_lines:
  "names \<noteq> [] \<Longrightarrow>
     newline @ join newline (map (\<lambda>(i, n). str_nat (i + 1) @ ''. '' @ n) (enumerate k names))
     = spec_lines (Suc k) names"
proof (induction names arbitrary: k)
  case Nil
  then show ?case by simp
next
  case (Cons n names)
  show ?case
  proof (cases names)
    case Nil
    then show ?thesis by (simp add: newline_def str_nat_decimal)
  next
    case (Cons n' rest)
    with Cons.IH [of "Suc k"] show ?thesis
      by (simp add: newline_def str_nat_decimal)
  qed
qed

lemma join_mentions:
  "uids \<noteq> [] \<Longrightarrow> '' '' @ join '' '' (map mention uids) = spec_mentions uids"
proof (induction uids)
  case Nil
  then show ?case by simp
next
  case (Cons u uids)
  show ?case
  proof (cases uids)
    case Nil
    then show ?thesis by (simp add: mention_def str_int_decimal)
  next
    case (Cons u' rest)
    with Cons.IH show ?thesis by (simp add: mention_def str_int_decimal)
  qed
qed

lemma lineup_text_render_spec:
  assumes "set (participants_order s) \<subseteq> dom (participants_names s)"
  shows "lineup_text s
         = Inr (render_spec (map (\<lambda>uid. (uid, the (participants_names s uid))) (participants_order s)))"
proof (cases "participants_order s = []")
  case True
  then show ?thesis
    by (simp add: lineup_text_def render_spec_def empty_text_def check_mark_def)
next
  case False
  let ?names = "map (\<lambda>uid. the (participants_names s uid)) (participants_order s)"
  have names: "lookup_names (participants_names s) (participants_order s) = Inr ?names"
    using assms by (rule lookup_names_total)
  have ne: "?names \<noteq> []" using False by simp
  have lines: "newline @ join newline
                 (map (\<lambda>(i, n). str_nat (i + 1) @ ''. '' @ n) (enumerate 0 ?names))
               = spec_lines 1 ?names"
    using join_lines [OF ne, of 0] by simp
  have mentions: "'' '' @ join '' '' (map mention (participants_order s))
                  = spec_mentions (participants_order s)"
    using False by (rule join_mentions)
  have text_of: "lineup_text s
        = Inr ((if length (participants_order s) = 5
                then ready_mark @ '' '' @ em_dash
                     @ ('' '' @ join '' '' (map mention (participants_order s)))
                else plain_header)
               @ (newline @ join newline
                   (map (\<lambda>(i, n). str_nat (i + 1) @ ''. '' @ n) (enumerate 0 ?names))))"
    using False by (simp add: lineup_text_def names max_participants_def Let_def)
  show ?thesis
    unfolding text_of lines mentions
    using False
    by (simp add: render_spec_def comp_def ready_mark_def em_dash_def plain_header_def)
qed

lemma has_ready_header_render_spec:
  "has_ready_header (render_spec entries) \<longleftrightarrow> length entries = 5"
  by (auto simp: render_spec_def has_ready_header_def)


text \<open>
  C7. On a roster whose ids all have a stored name, \<open>_lineup_text\<close> returns the text
  the specification describes (\<open>render_spec\<close>): on the empty roster the empty-state
  text that invites to react to join; otherwise the header and, after a line feed each,
  the stored names numbered from 1 in join order, the numbers being decimal numerals; and
  the text starts with the ready header, which the mentions follow in join order, exactly
  when the roster holds \<open>max_participants\<close> ids.
\<close>

theorem lineup_text_spec:
  assumes "set (participants_order s) \<subseteq> dom (participants_names s)"
  shows "lineup_text s
           = Inr (render_spec (map (\<lambda>uid. (uid, the (participants_names s uid)))
                                   (participants_order s)))
         \<and> (participants_order s = []
              \<longrightarrow> lineup_text s
                    = Inr ([CHR 0xF0, CHR 0x9F, CHR 0x93, CHR 0xAD]
                           @ '' **Lineup is empty.** React with ''
                           @ [CHR 0xE2, CHR 0x9C, CHR 0x85] @ '' to join.''))
         \<and> (\<exists>t. lineup_text s = Inr t
                \<and> (has_ready_header t \<longleftrightarrow> length (participants_order s) = max_participants))
         \<and> decimal_value (str_nat n) = n"
proof -
  note eq = lineup_text_render_spec [OF assms]
  have empty: "participants_order s = []
              \<longrightarrow> lineup_text s
                    = Inr ([CHR 0xF0, CHR 0x9F, CHR 0x93, CHR 0xAD]
                           @ '' **Lineup is empty.** React with ''
                           @ [CHR 0xE2, CHR 0x9C, CHR 0x85] @ '' to join.'')"
    using eq by (simp add: render_spec_def)
  have ready: "\<exists>t. lineup_text s = Inr t
                \<and> (has_ready_header t \<longleftrightarrow> length (participants_order s) = max_participants)"
    using eq by (simp add: has_ready_header_render_spec max_participants_def)
  have num: "decimal_value (str_nat n) = n"
    by (simp add: str_nat_decimal decimal_value_decimal)
  from eq empty ready num show ?thesis by blast
qed

theorem lineup_text_spec_witness:
  "set (participants_order (init_state ())) \<subseteq> dom (participants_names (init_state ()))
   \<and> participants_order (init_state ()) = []
   \<and> lineup_text (init_state ())
       = Inr ([CHR 0xF0, CHR 0x9F, CHR 0x93, CHR 0xAD] @ '' **Lineup is empty.** React with ''
              @ [CHR 0xE2, CHR 0x9C, CHR 0x85] @ '' to join.'')
   \<and> set (participants_order lineup3) \<subseteq> dom (participants_names lineup3)
   \<and> lineup_text lineup3
       = Inr ([CHR 0xF0, CHR 0x9F, CHR 0x93, CHR 0x8B] @ '' **Current Lineup**''
              @ [CHR 0x0A] @ ''1. ann'' @ [CHR 0x0A] @ ''2. bob'' @ [CHR 0x0A] @ ''3. cy'')
   \<and> set (participants_order lineup5) \<subseteq> dom (participants_names lineup5)
   \<and> lineup_text lineup5
       = Inr ([CHR 0xF0, CHR 0x9F, CHR 0x93, CHR 0x8B] @ '' **Current Lineup (READY)** ''
              @ [CHR 0xE2, CHR 0x80, CHR 0x94] @ '' <@11> <@12> <@13> <@14> <@15>''
              @ [CHR 0x0A] @ ''1. ann'' @ [CHR 0x0A] @ ''2. bob'' @ [CHR 0x0A] @ ''3. cy''
              @ [CHR 0x0A] @ ''4. dee'' @ [CHR 0x0A] @ ''5. eve'')
   \<and> has_ready_header ([CHR 0xF0, CHR 0x9F, CHR 0x93, CHR 0x8B]
                         @ '' **Current Lineup (READY)** '' @ [CHR 0xE2, CHR 0x80, CHR 0x94]
                         @ '' <@11> <@12> <@13> <@14> <@15>'' @ [CHR 0x0A] @ ''1. ann'')
   \<and> decimal_value (str_nat 776328568036392972) = 776328568036392972"
proof -
  have h5: "has_ready_header ([CHR 0xF0, CHR 0x9F, CHR 0x93, CHR 0x8B]
                         @ '' **Current Lineup (READY)** '' @ [CHR 0xE2, CHR 0x80, CHR 0x94]
                         @ '' <@11> <@12> <@13> <@14> <@15>'' @ [CHR 0x0A] @ ''1. ann'')"
    by (simp add: has_ready_header_def)
  have c0: "set (participants_order (init_state ())) \<subseteq> dom (participants_names (init_state ()))"
    and e0: "participants_order (init_state ()) = []"
    by (simp_all add: init_state_def)
  have c3: "set (participants_order lineup3) \<subseteq> dom (participants_names lineup3)"
    by (simp add: lineup3_def)
  have c5: "set (participants_order lineup5) \<subseteq> dom (participants_names lineup5)"
    by (simp add: lineup5_def)
  have r3: "render_spec (map (\<lambda>uid. (uid, the (participants_names lineup3 uid)))
                             (participants_order lineup3))
            = [CHR 0xF0, CHR 0x9F, CHR 0x93, CHR 0x8B] @ '' **Current Lineup**''
              @ [CHR 0x0A] @ ''1. ann'' @ [CHR 0x0A] @ ''2. bob'' @ [CHR 0x0A] @ ''3. cy''"
    by (simp add: lineup3_def render_spec_def decimal.simps spec_digit_def char_of_def bit_Suc_0_iff)
  have r5: "render_spec (map (\<lambda>uid. (uid, the (participants_names lineup5 uid)))
                             (participants_order lineup5))
            = [CHR 0xF0, CHR 0x9F, CHR 0x93, CHR 0x8B] @ '' **Current Lineup (READY)** ''
              @ [CHR 0xE2, CHR 0x80, CHR 0x94] @ '' <@11> <@12> <@13> <@14> <@15>''
              @ [CHR 0x0A] @ ''1. ann'' @ [CHR 0x0A] @ ''2. bob'' @ [CHR 0x0A] @ ''3. cy''
              @ [CHR 0x0A] @ ''4. dee'' @ [CHR 0x0A] @ ''5. eve''"
    by (simp add: lineup5_def render_spec_def decimal_int_def decimal.simps spec_digit_def char_of_def bit_Suc_0_iff)
  note s0 = lineup_text_spec [OF c0, of 776328568036392972]
  note s3 = lineup_text_spec [OF c3, of 0]
  note s5 = lineup_text_spec [OF c5, of 0]
  from s0 e0 have t0: "lineup_text (init_state ())
       = Inr ([CHR 0xF0, CHR 0x9F, CHR 0x93, CHR 0xAD] @ '' **Lineup is empty.** React with ''
              @ [CHR 0xE2, CHR 0x9C, CHR 0x85] @ '' to join.'')"
    by blast
  from s0 have v: "decimal_value (str_nat 776328568036392972) = 776328568036392972"
    by blast
  from s3 have t3: "lineup_text lineup3
       = Inr (render_spec (map (\<lambda>uid. (uid, the (participants_names lineup3 uid)))
                               (participants_order lineup3)))"
    by blast
  from s5 have t5: "lineup_text lineup5
       = Inr (render_spec (map (\<lambda>uid. (uid, the (participants_names lineup5 uid)))
                               (participants_order lineup5)))"
    by blast
  from c0 e0 t0 c3 t3 c5 t5 v h5 show ?thesis
    unfolding r3 r5 by blast
qed

subsection \<open>Guards of the listeners\<close>

lemma sample_guards:
  "user_id fay \<noteq> bot_user_id scripted"
  "emoji_matches check_emoji reaction_emoji"
  by (simp_all add: fay_def scripted_def emoji_matches_def check_emoji_def reaction_emoji_def)

text \<open>
  C2. A reaction-added or reaction-removed event, rich or raw, on a message whose
  (channel id, message id) pair is not in the anchor set returns at once: the order list,
  the name mapping and every other field are as before, and no platform call is made,
  whatever the emoji and the actor are.
\<close>

theorem non_anchor_reaction_ignored:
  "((msg_channel (reaction_message r), msg_id (reaction_message r)) \<notin> anchor_messages s
      \<longrightarrow> on_reaction_add P r u s = (Inr (), s) \<and> on_reaction_remove P r u s = (Inr (), s))
   \<and> ((payload_channel_id p, payload_message_id p) \<notin> anchor_messages s
      \<longrightarrow> on_raw_reaction_add P p s = (Inr (), s)
          \<and> on_raw_reaction_remove P p s = (Inr (), s))"
  by (simp add: on_reaction_add_def on_reaction_remove_def on_raw_reaction_add_def
                on_raw_reaction_remove_def is_anchor_def)

theorem non_anchor_reaction_ignored_witness:
  "user_id fay \<noteq> bot_user_id scripted
   \<and> emoji_matches (reaction_emoji_of (check_reaction (stored_message 10 101))) reaction_emoji
   \<and> (10, 101) \<notin> anchor_messages (anchored3 [])
   \<and> on_reaction_add scripted (check_reaction (stored_message 10 101)) fay (anchored3 [])
       = (Inr (), anchored3 [])
   \<and> on_reaction_remove scripted (check_reaction (stored_message 10 101)) fay (anchored3 [])
       = (Inr (), anchored3 [])
   \<and> on_raw_reaction_add scripted (raw_check 4 10 101) (anchored3 []) = (Inr (), anchored3 [])
   \<and> on_raw_reaction_remove scripted (raw_check 2 10 101) (anchored3 [])
       = (Inr (), anchored3 [])"
proof -
  have rich: "(msg_channel (reaction_message (check_reaction (stored_message 10 101))),
               msg_id (reaction_message (check_reaction (stored_message 10 101))))
              \<notin> anchor_messages (anchored3 [])"
    by (simp add: check_reaction_def stored_message_def anchored3_def)
  have raw4: "(payload_channel_id (raw_check 4 10 101), payload_message_id (raw_check 4 10 101))
              \<notin> anchor_messages (anchored3 [])"
    by (simp add: raw_check_def anchored3_def)
  have raw2: "(payload_channel_id (raw_check 2 10 101), payload_message_id (raw_check 2 10 101))
              \<notin> anchor_messages (anchored3 [])"
    by (simp add: raw_check_def anchored3_def)
  have anchor: "(10, 101) \<notin> anchor_messages (anchored3 [])"
    by (simp add: anchored3_def)
  have emoji: "emoji_matches (reaction_emoji_of (check_reaction (stored_message 10 101))) reaction_emoji"
    by (simp add: check_reaction_def sample_guards)
  from rich raw4 raw2
    non_anchor_reaction_ignored [of "check_reaction (stored_message 10 101)" "anchored3 []"
                                    scripted fay "raw_check 4 10 101"]
    non_anchor_reaction_ignored [of "check_reaction (stored_message 10 101)" "anchored3 []"
                                    scripted fay "raw_check 2 10 101"]
  show ?thesis
    by (simp add: anchor emoji sample_guards)
qed

text \<open>
  C9. A raw reaction-added or reaction-removed event whose channel is not in the
  client's cache is dropped: the handler returns normally, the state is as before and no
  platform call is made, also when the actor, the emoji and the anchor pass the guards.
\<close>

theorem raw_event_dropped_without_channel:
  assumes "get_channel P (world s) (payload_channel_id p) = None"
  shows "on_raw_reaction_add P p s = (Inr (), s)
         \<and> on_raw_reaction_remove P p s = (Inr (), s)"
  using assms
  by (simp add: on_raw_reaction_add_def on_raw_reaction_remove_def Let_def)

theorem raw_event_dropped_without_channel_witness:
  "payload_user_id (raw_check 4 10 100) \<noteq> bot_user_id uncached
   \<and> emoji_matches (payload_emoji (raw_check 4 10 100)) reaction_emoji
   \<and> is_anchor (anchored3 []) 10 100
   \<and> get_channel uncached (world (anchored3 [])) 10 = None
   \<and> on_raw_reaction_add uncached (raw_check 4 10 100) (anchored3 []) = (Inr (), anchored3 [])
   \<and> participants_names (anchored3 []) 2 = Some ''bob''
   \<and> on_raw_reaction_remove uncached (raw_check 2 10 100) (anchored3 [])
       = (Inr (), anchored3 [])"
proof -
  have lookup4: "get_channel uncached (world (anchored3 [])) (payload_channel_id (raw_check 4 10 100)) = None"
    by (simp add: uncached_def)
  have lookup2: "get_channel uncached (world (anchored3 [])) (payload_channel_id (raw_check 2 10 100)) = None"
    by (simp add: uncached_def)
  have guards: "payload_user_id (raw_check 4 10 100) \<noteq> bot_user_id uncached"
    "emoji_matches (payload_emoji (raw_check 4 10 100)) reaction_emoji"
    "is_anchor (anchored3 []) 10 100"
    "get_channel uncached (world (anchored3 [])) 10 = None"
    "participants_names (anchored3 []) 2 = Some ''bob''"
    by (simp_all add: raw_check_def uncached_def scripted_def sample_guards is_anchor_def
                      anchored3_def)
  from raw_event_dropped_without_channel [OF lookup4]
       raw_event_dropped_without_channel [OF lookup2] guards
  show ?thesis by simp
qed

text \<open>
  C10. When \<open>add_reaction\<close> raises on a message of another author that mentions a
  target role, \<open>on_message\<close> catches the exception and prints it: the handler returns
  normally, and the anchor set, the order list and the name mapping are as before.
\<close>

theorem on_message_reaction_failure:
  assumes "user_id (msg_author m) \<noteq> bot_user_id P"
      and "list_ex (\<lambda>role. role \<in> target_role_ids) (msg_role_mentions m)"
      and "add_reaction P (world s) m reaction_emoji = (w, Inl e)"
  shows "on_message P m s
           = (Inr (), s\<lparr>world := w,
                        trace := trace s @ [AddReaction m reaction_emoji (Inl e), Print e]\<rparr>)
         \<and> anchor_messages (snd (on_message P m s)) = anchor_messages s
         \<and> participants_order (snd (on_message P m s)) = participants_order s
         \<and> participants_names (snd (on_message P m s)) = participants_names s"
  using assms
  by (simp add: on_message_def do_add_reaction_def do_print_def)

theorem on_message_reaction_failure_witness:
  "user_id (msg_author call_message) \<noteq> bot_user_id scripted
   \<and> list_ex (\<lambda>role. role \<in> target_role_ids) (msg_role_mentions call_message)
   \<and> add_reaction scripted ([False], 500) call_message reaction_emoji = (([], 500), Inl Forbidden)
   \<and> on_message scripted call_message (init_state ([False], 500))
       = (Inr (), (init_state ([False], 500))
                    \<lparr>world := ([], 500),
                      trace := [AddReaction call_message reaction_emoji (Inl Forbidden),
                                Print Forbidden]\<rparr>)"
proof -
  have author: "user_id (msg_author call_message) \<noteq> bot_user_id scripted"
    by (simp add: call_message_def fay_def scripted_def)
  have role: "list_ex (\<lambda>role. role \<in> target_role_ids) (msg_role_mentions call_message)"
    by (simp add: call_message_def target_role_ids_def)
  have fails: "add_reaction scripted (world (init_state ([False], 500))) call_message reaction_emoji
               = (([], 500), Inl Forbidden)"
    by (simp add: scripted_def init_state_def outcome_def advance_def)
  have w: "world (init_state ([False], 500)) = ([False], 500)"
    and t: "trace (init_state ([False], 500)) = []"
    by (simp_all add: init_state_def)
  from on_message_reaction_failure [OF author role fails] author role fails
  show ?thesis
    by (simp add: w t)
qed

subsection \<open>The log of the display update\<close>

lemma new_calls_append: "trace s' = trace s @ new \<Longrightarrow> new_calls s s' = new"
  by (simp add: new_calls_def)

lemma count_append [simp]:
  "count_sends (xs @ ys) = count_sends xs + count_sends ys"
  "count_edits (xs @ ys) = count_edits xs + count_edits ys"
  by (simp_all add: count_sends_def count_edits_def)

lemma count_Nil [simp]: "count_sends [] = 0" "count_edits [] = 0"
  by (simp_all add: count_sends_def count_edits_def)

lemma lineup_text_cong:
  "participants_order s' = participants_order s \<Longrightarrow> participants_names s' = participants_names s
   \<Longrightarrow> lineup_text s' = lineup_text s"
proof -
  assume same: "participants_order s' = participants_order s"
    "participants_names s' = participants_names s"
  show ?thesis unfolding lineup_text_def same by (rule refl)
qed

lemma io_step_refl: "io_step Q ns ne s s"
  by (simp add: io_step_def)

lemma io_step_trans:
  assumes "io_step Q a b s s1" and "io_step Q c d s1 s2"
  shows "io_step Q (a + c) (b + d) s s2"
proof -
  from assms(1) obtain n1 where n1: "trace s1 = trace s @ n1" "list_all Q n1"
      "count_sends n1 \<le> a" "count_edits n1 \<le> b"
    by (auto simp: io_step_def)
  from assms(2) obtain n2 where n2: "trace s2 = trace s1 @ n2" "list_all Q n2"
      "count_sends n2 \<le> c" "count_edits n2 \<le> d"
    by (auto simp: io_step_def)
  have "trace s2 = trace s @ (n1 @ n2)" using n1 n2 by simp
  moreover have "list_all Q (n1 @ n2)" using n1 n2 by simp
  moreover have "count_sends (n1 @ n2) \<le> a + c" "count_edits (n1 @ n2) \<le> b + d"
    using n1 n2 by simp_all
  ultimately have "\<exists>new. trace s2 = trace s @ new \<and> list_all Q new
                \<and> count_sends new \<le> a + c \<and> count_edits new \<le> b + d"
    by blast
  with assms show ?thesis by (simp add: io_step_def)
qed

lemma io_step_weaken:
  "io_step Q a b s s' \<Longrightarrow> a \<le> a' \<Longrightarrow> b \<le> b' \<Longrightarrow> io_step Q a' b' s s'"
proof -
  assume step: "io_step Q a b s s'" and le: "a \<le> a'" "b \<le> b'"
  from step obtain new where n: "trace s' = trace s @ new" "list_all Q new"
      "count_sends new \<le> a" "count_edits new \<le> b"
    by (auto simp: io_step_def)
  from n le have "count_sends new \<le> a'" "count_edits new \<le> b'" by simp_all
  with n have "\<exists>new. trace s' = trace s @ new \<and> list_all Q new
                \<and> count_sends new \<le> a' \<and> count_edits new \<le> b'"
    by blast
  with step show ?thesis by (simp add: io_step_def)
qed

lemma io_step_lineup_text: "io_step Q a b s s' \<Longrightarrow> lineup_text s' = lineup_text s"
  by (rule lineup_text_cong) (simp_all add: io_step_def)

lemma do_fetch_step: "io_step (display_call channel rd) 0 0 s (snd (do_fetch P ch mid s))"
  by (simp add: do_fetch_def io_step_def display_call_def count_sends_def count_edits_def
                is_send_def is_edit_def split: prod.splits)

lemma do_send_step:
  "io_step (display_call channel (Inr text)) 1 0 s (snd (do_send P channel text s))"
  by (simp add: do_send_def io_step_def display_call_def count_sends_def count_edits_def
                is_send_def is_edit_def split: prod.splits)

lemma do_edit_step:
  "io_step (display_call channel (Inr text)) 0 1 s (snd (do_edit P msg text s))"
  by (simp add: do_edit_def io_step_def display_call_def count_sends_def count_edits_def
                is_send_def is_edit_def split: prod.splits)

lemma io_step_ids:
  "io_step Q a b s s' \<Longrightarrow> io_step Q a b s (s'\<lparr>lineup_channel_id := c, lineup_message_id := m\<rparr>)"
  by (simp add: io_step_def)

lemma send_and_record_step:
  "io_step (display_call channel (lineup_text s)) 1 0 s (snd (send_and_record P channel s))"
proof (cases "lineup_text s")
  case (Inl e)
  then show ?thesis by (simp add: send_and_record_def io_step_refl)
next
  case (Inr rendered)
  obtain r s1 where d: "do_send P channel rendered s = (r, s1)"
    by (cases "do_send P channel rendered s")
  have step: "io_step (display_call channel (Inr rendered)) 1 0 s s1"
    using do_send_step [of channel rendered s P] d by simp
  show ?thesis
  proof (cases r)
    case (Inl e)
    with step Inr d show ?thesis by (simp add: send_and_record_def)
  next
    case msg: (Inr msg)
    with io_step_ids [OF step] Inr d show ?thesis by (simp add: send_and_record_def)
  qed
qed

lemma stored_message_exists_step:
  "io_step (display_call channel rd) 0 0 s (snd (stored_message_exists P s))"
proof -
  have fetch: "io_step (display_call channel rd) 0 0 s
                 (snd (case do_fetch P ch mid s of
                         (Inr msg, s1) \<Rightarrow> (True, s1)
                       | (Inl e, s1) \<Rightarrow> (False, s1)))" for ch mid
    using do_fetch_step [of channel rd s P ch mid]
    by (cases "do_fetch P ch mid s") (simp split: sum.splits)
  show ?thesis
    unfolding stored_message_exists_def
    by (simp add: io_step_refl fetch split: option.splits)
qed

lemma ensure_lineup_message_step:
  "io_step (display_call channel (lineup_text s)) 1 0 s (snd (ensure_lineup_message P channel s))"
proof -
  obtain b s1 where e: "stored_message_exists P s = (b, s1)" by (cases "stored_message_exists P s")
  have s1: "io_step (display_call channel (lineup_text s)) 0 0 s s1"
    using stored_message_exists_step [of channel "lineup_text s" s P] e by simp
  have t: "lineup_text s1 = lineup_text s" using s1 by (rule io_step_lineup_text)
  have s2: "io_step (display_call channel (lineup_text s)) 1 0 s1 (snd (send_and_record P channel s1))"
    using send_and_record_step [of channel s1 P] t by simp
  show ?thesis
  proof (cases b)
    case True
    with e io_step_weaken [OF s1, of 1 0] show ?thesis
      by (simp add: ensure_lineup_message_def)
  next
    case False
    with e io_step_trans [OF s1 s2] show ?thesis
      by (simp add: ensure_lineup_message_def)
  qed
qed

lemma fetch_and_edit_step:
  "io_step (display_call channel (lineup_text s)) 0 1 s (snd (fetch_and_edit P ch mid s))"
proof -
  obtain r s1 where f: "do_fetch P ch mid s = (r, s1)" by (cases "do_fetch P ch mid s")
  have s1: "io_step (display_call channel (lineup_text s)) 0 0 s s1"
    using do_fetch_step [of channel "lineup_text s" s P ch mid] f by simp
  have t: "lineup_text s1 = lineup_text s" using s1 by (rule io_step_lineup_text)
  show ?thesis
  proof (cases r)
    case (Inl e)
    with f io_step_weaken [OF s1, of 0 1] show ?thesis by (simp add: fetch_and_edit_def)
  next
    case (Inr msg)
    show ?thesis
    proof (cases "lineup_text s")
      case (Inl e)
      with f Inr t io_step_weaken [OF s1, of 0 1] show ?thesis by (simp add: fetch_and_edit_def)
    next
      case rendered: (Inr rendered)
      have "io_step (display_call channel (lineup_text s)) 0 1 s1 (snd (do_edit P msg rendered s1))"
        using do_edit_step [of channel rendered s1 P msg] rendered by simp
      from io_step_trans [OF s1 this] f Inr t rendered show ?thesis
        by (simp add: fetch_and_edit_def)
    qed
  qed
qed

lemma update_lineup_message_step:
  "io_step (display_call channel (lineup_text s)) 2 1 s (snd (update_lineup_message P channel s))"
proof -
  let ?Q = "display_call channel (lineup_text s)"
  obtain r1 s1 where e: "ensure_lineup_message P channel s = (r1, s1)"
    by (cases "ensure_lineup_message P channel s")
  have s1: "io_step ?Q 1 0 s s1"
    using ensure_lineup_message_step [of channel s P] e by simp
  have t1: "lineup_text s1 = lineup_text s" using s1 by (rule io_step_lineup_text)
  have keep: "io_step ?Q 2 1 s s1" using s1 by (rule io_step_weaken) simp_all
  have tail: "io_step ?Q 2 1 s (snd (case fetch_and_edit P c mid s1 of
                               (Inr v, s2) \<Rightarrow> (Inr (), s2)
                             | (Inl e, s2) \<Rightarrow> send_and_record P channel s2))" for c mid
  proof -
    obtain r2 s2 where f: "fetch_and_edit P c mid s1 = (r2, s2)"
      by (cases "fetch_and_edit P c mid s1")
    have s2: "io_step ?Q 0 1 s1 s2"
      using fetch_and_edit_step [of channel s1 P c mid] f t1 by simp
    have t2: "lineup_text s2 = lineup_text s"
      using io_step_lineup_text [OF s2] t1 by simp
    have s3: "io_step ?Q 1 0 s2 (snd (send_and_record P channel s2))"
      using send_and_record_step [of channel s2 P] t2 by simp
    show ?thesis
    proof (cases r2)
      case (Inl e)
      from io_step_weaken [OF io_step_trans [OF io_step_trans [OF s1 s2] s3], of 2 1] f Inl
      show ?thesis by simp
    next
      case (Inr v)
      from io_step_weaken [OF io_step_trans [OF s1 s2], of 2 1] f Inr show ?thesis by simp
    qed
  qed
  show ?thesis
  proof (cases r1)
    case (Inl err)
    with e keep show ?thesis by (simp add: update_lineup_message_def)
  next
    case (Inr u)
    with e keep tail show ?thesis
      by (simp add: update_lineup_message_def Let_def split: option.splits)
  qed
qed

subsection \<open>The notice of a full lineup\<close>

lemma lineup_text_hd: "lineup_text s = Inr t \<Longrightarrow> hd t = CHR 0xF0"
  by (auto simp: lineup_text_def empty_text_def ready_mark_def plain_header_def Let_def
           split: if_splits sum.splits)

lemma lineup_text_not_notice: "lineup_text s \<noteq> Inr full_notice"
proof
  assume "lineup_text s = Inr full_notice"
  then have "hd full_notice = CHR 0xF0" by (rule lineup_text_hd)
  then show False by (simp add: full_notice_def)
qed

lemma display_call_not_notice:
  "display_call channel (lineup_text s) c \<Longrightarrow> \<not> is_full_notice c"
  using lineup_text_not_notice [of s]
  by (cases c) (auto simp: display_call_def is_full_notice_def)

lemma io_step_new_calls:
  "io_step Q a b s s' \<Longrightarrow> trace s' = trace s @ new_calls s s' \<and> list_all Q (new_calls s s')
      \<and> count_sends (new_calls s s') \<le> a \<and> count_edits (new_calls s s') \<le> b"
  by (auto simp: io_step_def new_calls_def)

lemma display_step_no_notice:
  assumes "io_step (display_call channel (lineup_text s0)) a b s s'"
  shows "\<not> notice_sent (new_calls s s')"
proof -
  from io_step_new_calls [OF assms]
  have "list_all (display_call channel (lineup_text s0)) (new_calls s s')" by simp
  then show ?thesis
    by (auto simp: notice_sent_def list_all_iff list_ex_iff dest: display_call_not_notice)
qed

lemma add_user_trace: "trace (snd (add_user uid name s)) = trace s"
  by (simp add: add_user_def)

lemma update_no_notice:
  "trace s1 = trace s \<Longrightarrow> \<not> notice_sent (new_calls s (snd (update_lineup_message P ch s1)))"
  using display_step_no_notice [OF update_lineup_message_step [of ch s1 P]]
  by (simp add: new_calls_def)

lemma sample_anchor5:
  "is_anchor (anchored5 []) (msg_channel (reaction_message (check_reaction call_message)))
                                (msg_id (reaction_message (check_reaction call_message)))"
  "emoji_matches (reaction_emoji_of (check_reaction call_message)) reaction_emoji"
  "length (participants_order (anchored5 [])) \<ge> max_participants"
  by (simp_all add: is_anchor_def anchored5_def check_reaction_def call_message_def
                    sample_guards max_participants_def)

text \<open>
  C8, as the code has it. On a rich reaction-added event that passes the guards, the
  notice of a full lineup is sent exactly when \<open>_add_user\<close> fails and the order list
  holds \<open>max_participants\<close> ids, that is exactly when the roster is at capacity, whoever
  reacts. The raw handler never sends the notice.
\<close>

theorem full_notice_when_at_capacity:
  assumes "user_id u \<noteq> bot_user_id P"
      and "emoji_matches (reaction_emoji_of r) reaction_emoji"
      and "is_anchor s (msg_channel (reaction_message r)) (msg_id (reaction_message r))"
  shows "(notice_sent (new_calls s (snd (on_reaction_add P r u s)))
            \<longleftrightarrow> \<not> fst (add_user (user_id u)
                              (if user_is_member u then user_display_name u else user_name u) s)
                \<and> length (participants_order s) \<ge> max_participants)
         \<and> (notice_sent (new_calls s (snd (on_reaction_add P r u s)))
            \<longleftrightarrow> length (participants_order s) \<ge> max_participants)
         \<and> \<not> notice_sent (new_calls s (snd (on_raw_reaction_add P p s)))"
proof -
  let ?display = "if user_is_member u then user_display_name u else user_name u"
  let ?ch = "msg_channel (reaction_message r)"
  obtain added s1 where a: "add_user (user_id u) ?display s = (added, s1)"
    by (cases "add_user (user_id u) ?display s")
  have t1: "trace s1 = trace s" using add_user_trace [of "user_id u" ?display s] a by simp
  have rich: "notice_sent (new_calls s (snd (on_reaction_add P r u s)))
              \<longleftrightarrow> \<not> added \<and> length (participants_order s) \<ge> max_participants"
  proof (cases added)
    case True
    with a assms update_no_notice [OF t1, of P ?ch] show ?thesis
      by (simp add: on_reaction_add_def Let_def)
  next
    case False
    with a have same: "s1 = s" by (auto simp: add_user_def split: if_splits)
    show ?thesis
    proof (cases "length (participants_order s) \<ge> max_participants")
      case True
      with False a assms same show ?thesis
        by (simp add: on_reaction_add_def Let_def do_send_def new_calls_def notice_sent_def
                      is_full_notice_def split: prod.splits)
    next
      case room: False
      with False a assms same show ?thesis
        by (simp add: on_reaction_add_def Let_def new_calls_def notice_sent_def)
    qed
  qed
  have cap: "(\<not> added \<and> length (participants_order s) \<ge> max_participants)
             \<longleftrightarrow> length (participants_order s) \<ge> max_participants"
    using a by (auto simp: add_user_def split: if_splits)
  have raw: "\<not> notice_sent (new_calls s (snd (on_raw_reaction_add P p s)))"
  proof -
    have idle: "\<not> notice_sent (new_calls s s)" by (simp add: new_calls_def notice_sent_def)
    have upd: "\<not> notice_sent (new_calls s (snd (case add_user uid name s of
                   (True, s1) \<Rightarrow> update_lineup_message P ch s1
                 | (False, s1) \<Rightarrow> (Inr (), s1))))" for uid name ch
    proof (cases "add_user uid name s")
      case (Pair b s2)
      have t2: "trace s2 = trace s" using add_user_trace [of uid name s] Pair by simp
      show ?thesis
      proof (cases b)
        case True
        with Pair update_no_notice [OF t2, of P ch] show ?thesis by simp
      next
        case False
        with Pair t2 show ?thesis by (simp add: new_calls_def notice_sent_def)
      qed
    qed
    show ?thesis
      unfolding on_raw_reaction_add_def Let_def
      by (simp add: idle upd split: option.splits)
  qed
  from rich cap raw a show ?thesis by simp
qed


theorem full_notice_when_at_capacity_witness:
  "user_id fay \<noteq> bot_user_id scripted
   \<and> emoji_matches (reaction_emoji_of (check_reaction call_message)) reaction_emoji
   \<and> is_anchor (anchored5 []) (msg_channel (reaction_message (check_reaction call_message)))
                                (msg_id (reaction_message (check_reaction call_message)))
   \<and> length (participants_order (anchored5 [])) \<ge> max_participants
   \<and> notice_sent (new_calls (anchored5 [])
         (snd (on_reaction_add scripted (check_reaction call_message) fay (anchored5 []))))
   \<and> \<not> notice_sent (new_calls (anchored5 [])
         (snd (on_raw_reaction_add scripted (raw_check 4 10 100) (anchored5 []))))"
proof -
  note spec = full_notice_when_at_capacity [where p = "raw_check 4 10 100",
          OF sample_guards(1) sample_anchor5(2) sample_anchor5(1)]
  from spec sample_anchor5(3)
  have rich: "notice_sent (new_calls (anchored5 [])
         (snd (on_reaction_add scripted (check_reaction call_message) fay (anchored5 []))))"
    by blast
  from spec
  have raw: "\<not> notice_sent (new_calls (anchored5 [])
         (snd (on_raw_reaction_add scripted (raw_check 4 10 100) (anchored5 []))))"
    by blast
  from rich raw sample_guards(1) sample_anchor5 show ?thesis
    by blast
qed

text \<open>
  C8 as stated fails: a participant of a full lineup reacts on the anchor;
  \<open>_add_user\<close> returns at the test for the id, not at the test for the capacity, and
  the notice is sent all the same.
\<close>

theorem full_notice_counterexample:
  "user_id ann \<noteq> bot_user_id scripted
   \<and> emoji_matches (reaction_emoji_of (check_reaction call_message)) reaction_emoji
   \<and> is_anchor (anchored5 []) (msg_channel (reaction_message (check_reaction call_message)))
                                (msg_id (reaction_message (check_reaction call_message)))
   \<and> participants_names (anchored5 []) (user_id ann) = Some ''ann''
   \<and> \<not> fails_because_full (user_id ann) (anchored5 [])
   \<and> new_calls (anchored5 [])
        (snd (on_reaction_add scripted (check_reaction call_message) ann (anchored5 [])))
       = [Send 10 full_notice (Inr (stored_message 10 500))]
   \<and> notice_sent (new_calls (anchored5 [])
        (snd (on_reaction_add scripted (check_reaction call_message) ann (anchored5 []))))"
proof -
  have guard: "user_id ann \<noteq> bot_user_id scripted"
    by (simp add: ann_def scripted_def)
  have present: "participants_names (anchored5 []) (user_id ann) = Some ''ann''"
    by (simp add: anchored5_def ann_def)
  then have reason: "\<not> fails_because_full (user_id ann) (anchored5 [])"
    by (simp add: fails_because_full_def)
  have add: "add_user (user_id ann) (user_display_name ann) (anchored5 []) = (False, anchored5 [])"
    using present by (simp add: add_user_def)
  have member: "user_is_member ann" by (simp add: ann_def)
  have ch: "msg_channel (reaction_message (check_reaction call_message)) = 10"
    by (simp add: check_reaction_def call_message_def)
  have sent: "do_send scripted 10 full_notice (anchored5 [])
              = (Inr (stored_message 10 500),
                 (anchored5 [])\<lparr>world := ([], 501),
                    trace := [Send 10 full_notice (Inr (stored_message 10 500))]\<rparr>)"
    by (simp add: do_send_def scripted_def anchored5_def outcome_def advance_def)
  have run: "on_reaction_add scripted (check_reaction call_message) ann (anchored5 [])
             = (Inr (), (anchored5 [])\<lparr>world := ([], 501),
                    trace := [Send 10 full_notice (Inr (stored_message 10 500))]\<rparr>)"
    using guard sample_anchor5
    by (simp add: on_reaction_add_def Let_def add member ch sent)
  have new: "new_calls (anchored5 [])
        (snd (on_reaction_add scripted (check_reaction call_message) ann (anchored5 [])))
       = [Send 10 full_notice (Inr (stored_message 10 500))]"
    unfolding run new_calls_def by (simp add: anchored5_def)
  have notice: "notice_sent [Send 10 full_notice (Inr (stored_message 10 500))]"
    by (simp add: notice_sent_def is_full_notice_def)
  from guard sample_anchor5 present reason new notice show ?thesis
    by simp
qed

subsection \<open>The display update\<close>

lemma lineup_text_update [simp]:
  "lineup_text (s\<lparr>world := w\<rparr>) = lineup_text s"
  "lineup_text (s\<lparr>trace := t\<rparr>) = lineup_text s"
  "lineup_text (s\<lparr>lineup_channel_id := c\<rparr>) = lineup_text s"
  "lineup_text (s\<lparr>lineup_message_id := m\<rparr>) = lineup_text s"
  by (rule lineup_text_cong; simp)+

lemma ensure_recreates:
  assumes "lineup_channel_id s = Some cid" and "lineup_message_id s = Some mid"
      and "cid \<noteq> 0" and "mid \<noteq> 0"
      and "get_channel P (world s) cid = Some ch"
      and "fetch_message P (world s) ch mid = (w1, Inl e)"
      and "lineup_text s = Inr rendered"
      and "send P w1 channel rendered = (w2, Inr msg)"
  shows "ensure_lineup_message P channel s
         = (Inr (), s\<lparr>world := w2,
                      trace := trace s @ [FetchMessage ch mid (Inl e),
                                          Send channel rendered (Inr msg)],
                      lineup_channel_id := Some (msg_channel msg),
                      lineup_message_id := Some (msg_id msg)\<rparr>)"
  using assms
  by (simp add: ensure_lineup_message_def stored_message_exists_def truthy_def do_fetch_def
                send_and_record_def do_send_def)

lemma update_edit_fallback:
  assumes "lineup_channel_id s = Some cid" and "lineup_message_id s = Some mid"
      and "cid \<noteq> 0" and "mid \<noteq> 0"
      and "get_channel P (world s) cid = Some ch"
      and "fetch_message P (world s) ch mid = (w1, Inr m1)"
      and "get_channel P w1 cid = Some ch2"
      and "fetch_message P w1 ch2 mid = (w2, Inr m2)"
      and "lineup_text s = Inr rendered"
      and "edit P w2 m2 rendered = (w3, Inl e)"
      and "send P w3 channel rendered = (w4, Inr msg)"
  shows "update_lineup_message P channel s
         = (Inr (), s\<lparr>world := w4,
                      trace := trace s @ [FetchMessage ch mid (Inr m1),
                                          FetchMessage ch2 mid (Inr m2),
                                          Edit m2 rendered (Inl e),
                                          Send channel rendered (Inr msg)],
                      lineup_channel_id := Some (msg_channel msg),
                      lineup_message_id := Some (msg_id msg)\<rparr>)"
  using assms
  by (simp add: update_lineup_message_def ensure_lineup_message_def stored_message_exists_def
                truthy_def do_fetch_def fetch_and_edit_def do_edit_def
                send_and_record_def do_send_def)

lemma send_failed_last_extend:
  assumes "trace s1 = trace s @ n1" and "trace s' = trace s1 @ n2"
      and "send_failed_last e (new_calls s1 s')"
  shows "send_failed_last e (new_calls s s')"
proof -
  from assms(2) have n2: "new_calls s1 s' = n2" by (rule new_calls_append)
  from assms(1,2) have "trace s' = trace s @ (n1 @ n2)" by simp
  then have "new_calls s s' = n1 @ n2" by (rule new_calls_append)
  with assms(3) n2 show ?thesis by (simp add: send_failed_last_def)
qed

lemma io_step_trace: "io_step Q a b s s' \<Longrightarrow> trace s' = trace s @ new_calls s s'"
  by (simp add: io_step_new_calls)

lemma send_and_record_raises:
  assumes "send_and_record P channel s = (Inl e, s')"
  shows "lineup_text s = Inl e \<or> send_failed_last e (new_calls s s')"
proof (cases "lineup_text s")
  case (Inl err)
  with assms show ?thesis by (simp add: send_and_record_def)
next
  case (Inr rendered)
  with assms show ?thesis
    by (auto simp: send_and_record_def do_send_def new_calls_def send_failed_last_def
             split: prod.splits sum.splits)
qed

lemma ensure_raises:
  assumes "ensure_lineup_message P channel s = (Inl e, s')"
  shows "lineup_text s = Inl e \<or> send_failed_last e (new_calls s s')"
proof -
  obtain b s1 where st: "stored_message_exists P s = (b, s1)"
    by (cases "stored_message_exists P s")
  have step: "io_step (display_call channel (lineup_text s)) 0 0 s s1"
    using stored_message_exists_step [of channel "lineup_text s" s P] st by simp
  from assms st have rec: "send_and_record P channel s1 = (Inl e, s')"
    by (cases b) (simp_all add: ensure_lineup_message_def)
  have step2: "io_step (display_call channel (lineup_text s1)) 1 0 s1 s'"
    using send_and_record_step [of channel s1 P] rec by simp
  from send_and_record_raises [OF rec] io_step_lineup_text [OF step]
  show ?thesis
    using send_failed_last_extend [OF io_step_trace [OF step] io_step_trace [OF step2]]
    by auto
qed

lemma update_raises:
  assumes "update_lineup_message P channel s = (Inl e, s')"
  shows "lineup_text s = Inl e \<or> send_failed_last e (new_calls s s')"
proof -
  obtain r1 s1 where en: "ensure_lineup_message P channel s = (r1, s1)"
    by (cases "ensure_lineup_message P channel s")
  have step1: "io_step (display_call channel (lineup_text s)) 1 0 s s1"
    using ensure_lineup_message_step [of channel s P] en by simp
  show ?thesis
  proof (cases r1)
    case (Inl err)
    with assms en have "err = e" "s1 = s'" by (simp_all add: update_lineup_message_def)
    with en Inl ensure_raises [of P channel s e s'] show ?thesis by simp
  next
    case (Inr u)
    with assms en obtain c mid s2 err
      where fe: "fetch_and_edit P c mid s1 = (Inl err, s2)"
        and rec: "send_and_record P channel s2 = (Inl e, s')"
      by (auto simp: update_lineup_message_def Let_def split: option.splits if_splits sum.splits prod.splits)
    have step2: "io_step (display_call channel (lineup_text s1)) 0 1 s1 s2"
      using fetch_and_edit_step [of channel s1 P c mid] fe by simp
    have step3: "io_step (display_call channel (lineup_text s2)) 1 0 s2 s'"
      using send_and_record_step [of channel s2 P] rec by simp
    have t: "lineup_text s2 = lineup_text s"
      using io_step_lineup_text [OF step1] io_step_lineup_text [OF step2] by simp
    have tr: "trace s2 = trace s @ (new_calls s s1 @ new_calls s1 s2)"
      using io_step_trace [OF step1] io_step_trace [OF step2] by simp
    from send_and_record_raises [OF rec] t
    show ?thesis
      using send_failed_last_extend [OF tr io_step_trace [OF step3]]
      by auto
  qed
qed


lemma script_simps:
  "outcome [] = True" "outcome (b # bs) = b" "advance [] = []" "advance (b # bs) = bs"
  by (simp_all add: outcome_def advance_def)

lemma scripted_simps:
  "bot_user_id scripted = 999"
  "get_channel scripted w cid = Some cid"
  "fetch_message scripted (script, n) ch mid
     = ((advance script, n), if outcome script then Inr (stored_message ch mid) else Inl NotFound)"
  "send scripted (script, n) ch rendered
     = ((advance script, n + 1),
        if outcome script then Inr (stored_message ch n) else Inl HTTPException)"
  "edit scripted (script, n) m rendered
     = ((advance script, n), if outcome script then Inr () else Inl NotFound)"
  "remove_reaction scripted (script, n) m em uid
     = ((advance script, n), if outcome script then Inr () else Inl Forbidden)"
  "response_defer scripted (script, n) i
     = ((advance script, n), if outcome script then Inr () else Inl NotFound)"
  "edit_original_response scripted (script, n) i rendered
     = ((advance script, n), if outcome script then Inr () else Inl HTTPException)"
  by (simp_all add: scripted_def)

lemma stored_message_sel:
  "msg_channel (stored_message ch mid) = ch"
  "msg_id (stored_message ch mid) = mid"
  "msg_reactions (stored_message ch mid) = [check_emoji]"
  by (simp_all add: stored_message_def)

lemma first_join_sel:
  "lineup_channel_id (first_join script) = None"
  "lineup_message_id (first_join script) = None"
  "world (first_join script) = (script, 500)"
  "trace (first_join script) = []"
  by (simp_all add: first_join_def)

lemma first_join_text: "lineup_text (first_join script) = Inr text1"
  by (simp add: lineup_text_def first_join_def text1_def max_participants_def
                str_nat.simps digit_char_def)

lemma anchored3_sel:
  "lineup_channel_id (anchored3 script) = Some 10"
  "lineup_message_id (anchored3 script) = Some 200"
  "world (anchored3 script) = (script, 500)"
  "trace (anchored3 script) = []"
  "participants_order (anchored3 script) = [1, 2, 3]"
  "anchor_messages (anchored3 script) = {(10, 100)}"
  by (simp_all add: anchored3_def)

lemma anchored3_text: "lineup_text (anchored3 script) = Inr text3"
  by (simp add: lineup_text_def anchored3_def text3_def max_participants_def
                str_nat.simps digit_char_def)

text \<open>
  C4, as the code has it. When the stored display message cannot be fetched,
  \<open>_ensure_lineup_message\<close> sends a new message with the rendered lineup and stores its
  ids. When the edit raises, \<open>_update_lineup_message\<close> sends a new message with the
  rendered lineup, stores its ids and returns normally. One call of
  \<open>_update_lineup_message\<close> only fetches, sends the rendered lineup to the given channel
  and edits with the rendered lineup; it edits at most once and sends at most twice; and an
  exception it raises comes from the rendering or from a \<open>send\<close>, the last call it made,
  never from a fetch or an edit.
\<close>

theorem display_sync_spec:
  "(lineup_channel_id s = Some cid \<and> lineup_message_id s = Some mid \<and> cid \<noteq> 0 \<and> mid \<noteq> 0
      \<and> get_channel P (world s) cid = Some ch
      \<and> fetch_message P (world s) ch mid = (w1, Inl e)
      \<and> lineup_text s = Inr rendered
      \<and> send P w1 channel rendered = (w2, Inr msg)
    \<longrightarrow> ensure_lineup_message P channel s
         = (Inr (), s\<lparr>world := w2,
                      trace := trace s @ [FetchMessage ch mid (Inl e),
                                          Send channel rendered (Inr msg)],
                      lineup_channel_id := Some (msg_channel msg),
                      lineup_message_id := Some (msg_id msg)\<rparr>))
   \<and> (lineup_channel_id s = Some cid \<and> lineup_message_id s = Some mid \<and> cid \<noteq> 0 \<and> mid \<noteq> 0
      \<and> get_channel P (world s) cid = Some ch
      \<and> fetch_message P (world s) ch mid = (v1, Inr m1)
      \<and> get_channel P v1 cid = Some ch2
      \<and> fetch_message P v1 ch2 mid = (v2, Inr m2)
      \<and> lineup_text s = Inr rendered
      \<and> edit P v2 m2 rendered = (v3, Inl e2)
      \<and> send P v3 channel rendered = (v4, Inr msg2)
    \<longrightarrow> update_lineup_message P channel s
         = (Inr (), s\<lparr>world := v4,
                      trace := trace s @ [FetchMessage ch mid (Inr m1),
                                          FetchMessage ch2 mid (Inr m2),
                                          Edit m2 rendered (Inl e2),
                                          Send channel rendered (Inr msg2)],
                      lineup_channel_id := Some (msg_channel msg2),
                      lineup_message_id := Some (msg_id msg2)\<rparr>))
   \<and> trace (snd (update_lineup_message P channel s))
       = trace s @ new_calls s (snd (update_lineup_message P channel s))
   \<and> count_edits (new_calls s (snd (update_lineup_message P channel s))) \<le> 1
   \<and> count_sends (new_calls s (snd (update_lineup_message P channel s))) \<le> 2
   \<and> list_all (display_call channel (lineup_text s))
                (new_calls s (snd (update_lineup_message P channel s)))
   \<and> (fst (update_lineup_message P channel s) = Inl err
      \<longrightarrow> lineup_text s = Inl err
          \<or> send_failed_last err (new_calls s (snd (update_lineup_message P channel s))))"
proof (intro conjI impI)
  assume "lineup_channel_id s = Some cid \<and> lineup_message_id s = Some mid \<and> cid \<noteq> 0 \<and> mid \<noteq> 0
      \<and> get_channel P (world s) cid = Some ch
      \<and> fetch_message P (world s) ch mid = (w1, Inl e)
      \<and> lineup_text s = Inr rendered
      \<and> send P w1 channel rendered = (w2, Inr msg)"
  then show "ensure_lineup_message P channel s
         = (Inr (), s\<lparr>world := w2,
                      trace := trace s @ [FetchMessage ch mid (Inl e),
                                          Send channel rendered (Inr msg)],
                      lineup_channel_id := Some (msg_channel msg),
                      lineup_message_id := Some (msg_id msg)\<rparr>)"
    by (elim conjE) (rule ensure_recreates; assumption)
next
  assume "lineup_channel_id s = Some cid \<and> lineup_message_id s = Some mid \<and> cid \<noteq> 0 \<and> mid \<noteq> 0
      \<and> get_channel P (world s) cid = Some ch
      \<and> fetch_message P (world s) ch mid = (v1, Inr m1)
      \<and> get_channel P v1 cid = Some ch2
      \<and> fetch_message P v1 ch2 mid = (v2, Inr m2)
      \<and> lineup_text s = Inr rendered
      \<and> edit P v2 m2 rendered = (v3, Inl e2)
      \<and> send P v3 channel rendered = (v4, Inr msg2)"
  then show "update_lineup_message P channel s
         = (Inr (), s\<lparr>world := v4,
                      trace := trace s @ [FetchMessage ch mid (Inr m1),
                                          FetchMessage ch2 mid (Inr m2),
                                          Edit m2 rendered (Inl e2),
                                          Send channel rendered (Inr msg2)],
                      lineup_channel_id := Some (msg_channel msg2),
                      lineup_message_id := Some (msg_id msg2)\<rparr>)"
    by (elim conjE) (rule update_edit_fallback; assumption)
next
  note step = io_step_new_calls [OF update_lineup_message_step [of channel s P]]
  from step show "trace (snd (update_lineup_message P channel s))
       = trace s @ new_calls s (snd (update_lineup_message P channel s))" by simp
  from step show "count_edits (new_calls s (snd (update_lineup_message P channel s))) \<le> 1"
    by simp
  from step show "count_sends (new_calls s (snd (update_lineup_message P channel s))) \<le> 2"
    by simp
  from step show "list_all (display_call channel (lineup_text s))
                (new_calls s (snd (update_lineup_message P channel s)))" by simp
next
  assume "fst (update_lineup_message P channel s) = Inl err"
  then have "update_lineup_message P channel s = (Inl err, snd (update_lineup_message P channel s))"
    by (cases "update_lineup_message P channel s") simp
  then show "lineup_text s = Inl err
          \<or> send_failed_last err (new_calls s (snd (update_lineup_message P channel s)))"
    by (rule update_raises)
qed

theorem display_sync_spec_witness:
  "lineup_text (anchored3 [False, True]) = Inr text3
   \<and> fetch_message scripted (world (anchored3 [False, True])) 10 200
       = (([True], 500), Inl NotFound)
   \<and> ensure_lineup_message scripted 10 (anchored3 [False, True])
       = (Inr (), (anchored3 [False, True])
                    \<lparr>world := ([], 501),
                      trace := [FetchMessage 10 200 (Inl NotFound),
                                Send 10 text3 (Inr (stored_message 10 500))],
                      lineup_channel_id := Some 10, lineup_message_id := Some 500\<rparr>)
   \<and> edit scripted ([False, True], 500) (stored_message 10 200) text3
       = (([True], 500), Inl NotFound)
   \<and> update_lineup_message scripted 10 (anchored3 [True, True, False, True])
       = (Inr (), (anchored3 [True, True, False, True])
                    \<lparr>world := ([], 501),
                      trace := [FetchMessage 10 200 (Inr (stored_message 10 200)),
                                FetchMessage 10 200 (Inr (stored_message 10 200)),
                                Edit (stored_message 10 200) text3 (Inl NotFound),
                                Send 10 text3 (Inr (stored_message 10 500))],
                      lineup_channel_id := Some 10, lineup_message_id := Some 500\<rparr>)
   \<and> count_edits (new_calls (anchored3 [True, True, False, True])
        (snd (update_lineup_message scripted 10 (anchored3 [True, True, False, True])))) \<le> 1
   \<and> count_sends (new_calls (anchored3 [True, True, False, True])
        (snd (update_lineup_message scripted 10 (anchored3 [True, True, False, True])))) \<le> 2"
proof -
  let ?a = "anchored3 [False, True]"
  let ?b = "anchored3 [True, True, False, True]"
  note spec_a = display_sync_spec [where s = ?a and P = scripted and cid = 10 and mid = 200
      and ch = 10 and ?w1.0 = "([True], 500)" and e = NotFound and rendered = text3
      and channel = 10 and ?w2.0 = "([], 501)" and msg = "stored_message 10 500"]
  note spec_b = display_sync_spec [where s = ?b and P = scripted and cid = 10 and mid = 200
      and ch = 10 and ?v1.0 = "([True, False, True], 500)" and ?m1.0 = "stored_message 10 200"
      and ?ch2.0 = 10 and ?v2.0 = "([False, True], 500)" and ?m2.0 = "stored_message 10 200"
      and rendered = text3 and ?v3.0 = "([True], 500)" and ?e2.0 = NotFound
      and channel = 10 and ?v4.0 = "([], 501)" and ?msg2.0 = "stored_message 10 500"]
  have fetch_a: "fetch_message scripted (world ?a) 10 200 = (([True], 500), Inl NotFound)"
    by (simp add: anchored3_sel scripted_simps script_simps)
  have hyp_a: "lineup_channel_id ?a = Some 10 \<and> lineup_message_id ?a = Some 200
      \<and> (10::int) \<noteq> 0 \<and> (200::int) \<noteq> 0
      \<and> get_channel scripted (world ?a) 10 = Some 10
      \<and> fetch_message scripted (world ?a) 10 200 = (([True], 500), Inl NotFound)
      \<and> lineup_text ?a = Inr text3
      \<and> send scripted ([True], 500) 10 text3 = (([], 501), Inr (stored_message 10 500))"
    by (simp add: anchored3_sel anchored3_text scripted_simps script_simps)
  have edit_b: "edit scripted ([False, True], 500) (stored_message 10 200) text3
       = (([True], 500), Inl NotFound)"
    by (simp add: scripted_simps script_simps)
  have hyp_b: "lineup_channel_id ?b = Some 10 \<and> lineup_message_id ?b = Some 200
      \<and> (10::int) \<noteq> 0 \<and> (200::int) \<noteq> 0
      \<and> get_channel scripted (world ?b) 10 = Some 10
      \<and> fetch_message scripted (world ?b) 10 200
          = (([True, False, True], 500), Inr (stored_message 10 200))
      \<and> get_channel scripted ([True, False, True], 500) 10 = Some 10
      \<and> fetch_message scripted ([True, False, True], 500) 10 200
          = (([False, True], 500), Inr (stored_message 10 200))
      \<and> lineup_text ?b = Inr text3
      \<and> edit scripted ([False, True], 500) (stored_message 10 200) text3
          = (([True], 500), Inl NotFound)
      \<and> send scripted ([True], 500) 10 text3 = (([], 501), Inr (stored_message 10 500))"
    by (simp add: anchored3_sel anchored3_text scripted_simps script_simps)
  from spec_a hyp_a
  have res_a: "ensure_lineup_message scripted 10 ?a
       = (Inr (), ?a\<lparr>world := ([], 501),
                      trace := trace ?a @ [FetchMessage 10 200 (Inl NotFound),
                                Send 10 text3 (Inr (stored_message 10 500))],
                      lineup_channel_id := Some (msg_channel (stored_message 10 500)),
                      lineup_message_id := Some (msg_id (stored_message 10 500))\<rparr>)"
    by blast
  from spec_b hyp_b
  have res_b: "update_lineup_message scripted 10 ?b
       = (Inr (), ?b\<lparr>world := ([], 501),
                      trace := trace ?b @ [FetchMessage 10 200 (Inr (stored_message 10 200)),
                                FetchMessage 10 200 (Inr (stored_message 10 200)),
                                Edit (stored_message 10 200) text3 (Inl NotFound),
                                Send 10 text3 (Inr (stored_message 10 500))],
                      lineup_channel_id := Some (msg_channel (stored_message 10 500)),
                      lineup_message_id := Some (msg_id (stored_message 10 500))\<rparr>)"
    by blast
  from spec_b
  have bounds: "count_edits (new_calls ?b (snd (update_lineup_message scripted 10 ?b))) \<le> 1"
    "count_sends (new_calls ?b (snd (update_lineup_message scripted 10 ?b))) \<le> 2"
    by blast+
  from res_a res_b bounds fetch_a edit_b show ?thesis
    by (simp add: anchored3_sel anchored3_text stored_message_sel)
qed

text \<open>
  C4 as stated fails: at a first join the new display message is sent, its fetch fails,
  and a second message is sent in the same call.
\<close>

theorem display_sync_counterexample:
  "fst (update_lineup_message scripted 10 (first_join [True, False, True])) = Inr ()
   \<and> new_calls (first_join [True, False, True])
        (snd (update_lineup_message scripted 10 (first_join [True, False, True])))
       = [Send 10 text1 (Inr (stored_message 10 500)),
          FetchMessage 10 500 (Inl NotFound),
          Send 10 text1 (Inr (stored_message 10 501))]
   \<and> count_sends (new_calls (first_join [True, False, True])
        (snd (update_lineup_message scripted 10 (first_join [True, False, True])))) = 2
   \<and> lineup_message_id (snd (update_lineup_message scripted 10 (first_join [True, False, True])))
       = Some 501"
proof -
  let ?s = "first_join [True, False, True]"
  have run: "update_lineup_message scripted 10 ?s
             = (Inr (), ?s\<lparr>world := ([], 502),
                           trace := [Send 10 text1 (Inr (stored_message 10 500)),
                                     FetchMessage 10 500 (Inl NotFound),
                                     Send 10 text1 (Inr (stored_message 10 501))],
                           lineup_channel_id := Some 10, lineup_message_id := Some 501\<rparr>)"
    by (simp add: update_lineup_message_def ensure_lineup_message_def stored_message_exists_def
                  truthy_def fetch_and_edit_def do_fetch_def send_and_record_def do_send_def
                  first_join_text first_join_sel scripted_simps script_simps stored_message_sel)
  show ?thesis
    unfolding run
    by (simp add: new_calls_def first_join_sel count_sends_def is_send_def)
qed


subsection \<open>The clear command\<close>

lemma io_step_frame:
  "io_step Q a b s s' \<Longrightarrow>
     participants_order s' = participants_order s
     \<and> participants_names s' = participants_names s
     \<and> anchor_messages s' = anchor_messages s"
  by (simp add: io_step_def)

lemma do_remove_reaction_step:
  "io_step retract_call 0 0 s (snd (do_remove_reaction P msg e uid s))"
  by (simp add: do_remove_reaction_def io_step_def retract_call_def count_sends_def
                count_edits_def is_send_def is_edit_def split: prod.splits)

lemma remove_matching_step: "io_step retract_call 0 0 s (remove_matching P msg rs s)"
proof (induction rs arbitrary: s)
  case Nil
  show ?case by (simp add: io_step_refl)
next
  case (Cons r rs)
  show ?case
  proof (cases "emoji_matches r reaction_emoji")
    case True
    obtain res s1 where d: "do_remove_reaction P msg r (bot_user_id P) s = (res, s1)"
      by (cases "do_remove_reaction P msg r (bot_user_id P) s")
    have one: "io_step retract_call 0 0 s s1"
      using do_remove_reaction_step [of s P msg r "bot_user_id P"] d by simp
    from io_step_trans [OF one Cons.IH [of s1]] True d show ?thesis by simp
  next
    case False
    with Cons.IH [of s] show ?thesis by simp
  qed
qed

lemma do_fetch_retract_step: "io_step retract_call 0 0 s (snd (do_fetch P ch mid s))"
  by (simp add: do_fetch_def io_step_def retract_call_def count_sends_def count_edits_def
                is_send_def is_edit_def split: prod.splits)

lemma remove_bots_reaction_on_returns: "fst (remove_bots_reaction_on P ch_id mid s) = Inr ()"
  by (simp add: remove_bots_reaction_on_def split: option.splits prod.splits sum.splits)

lemma remove_bots_reaction_on_step:
  "io_step retract_call 0 0 s (snd (remove_bots_reaction_on P ch_id mid s))"
proof (cases "get_channel P (world s) ch_id")
  case None
  then show ?thesis by (simp add: remove_bots_reaction_on_def io_step_refl)
next
  case (Some ch)
  obtain r s1 where f: "do_fetch P ch mid s = (r, s1)" by (cases "do_fetch P ch mid s")
  have one: "io_step retract_call 0 0 s s1"
    using do_fetch_retract_step [of s P ch mid] f by simp
  show ?thesis
  proof (cases r)
    case (Inl e)
    with Some f one show ?thesis by (simp add: remove_bots_reaction_on_def)
  next
    case (Inr msg)
    from io_step_trans [OF one remove_matching_step [of s1 P msg "msg_reactions msg"]] Some f Inr
    show ?thesis by (simp add: remove_bots_reaction_on_def)
  qed
qed

lemma remove_bots_reaction_on_fetches:
  assumes "get_channel P (world s) ch_id = Some ch"
  shows "\<exists>r. FetchMessage ch mid r \<in> set (new_calls s (snd (remove_bots_reaction_on P ch_id mid s)))"
proof -
  obtain r s1 where f: "do_fetch P ch mid s = (r, s1)" by (cases "do_fetch P ch mid s")
  then have t1: "trace s1 = trace s @ [FetchMessage ch mid r]"
    by (auto simp: do_fetch_def split: prod.splits)
  show ?thesis
  proof (cases r)
    case (Inl e)
    with assms f t1 show ?thesis
      by (auto simp: remove_bots_reaction_on_def new_calls_def)
  next
    case (Inr msg)
    from io_step_new_calls [OF remove_matching_step [of s1 P msg "msg_reactions msg"]]
    obtain n where "trace (remove_matching P msg (msg_reactions msg) s1) = trace s1 @ n"
      by blast
    with assms f t1 Inr show ?thesis
      by (auto simp: remove_bots_reaction_on_def new_calls_def)
  qed
qed

lemma retract_all_each: "retract_all P anchors s = (Inr (), retract_each P anchors s)"
proof (induction anchors arbitrary: s)
  case Nil
  show ?case by (simp add: retract_each_def)
next
  case (Cons a anchors)
  obtain ch_id mid where a: "a = (ch_id, mid)" by (cases a)
  obtain r s1 where rb: "remove_bots_reaction_on P ch_id mid s = (r, s1)"
    by (cases "remove_bots_reaction_on P ch_id mid s")
  with remove_bots_reaction_on_returns [of P ch_id mid s] have r: "r = Inr ()" by simp
  from Cons.IH [of s1] a rb r show ?case by (simp add: retract_each_def)
qed

lemma retract_each_step: "io_step retract_call 0 0 s (retract_each P anchors s)"
proof (induction anchors arbitrary: s)
  case Nil
  show ?case by (simp add: retract_each_def io_step_refl)
next
  case (Cons a anchors)
  obtain ch_id mid where a: "a = (ch_id, mid)" by (cases a)
  let ?s1 = "snd (remove_bots_reaction_on P ch_id mid s)"
  from io_step_trans [OF remove_bots_reaction_on_step [of s P ch_id mid] Cons.IH [of ?s1]] a
  show ?case by (simp add: retract_each_def)
qed

lemma new_calls_trans:
  assumes "trace s1 = trace s @ n1" and "trace s2 = trace s1 @ n2"
  shows "new_calls s s2 = new_calls s s1 @ new_calls s1 s2"
  using assms by (simp add: new_calls_def)

lemma retract_each_fetches:
  assumes cache: "\<forall>w c. get_channel P w c = Some c"
      and mem: "(ch_id, mid) \<in> set anchors"
  shows "\<exists>r. FetchMessage ch_id mid r \<in> set (new_calls s (retract_each P anchors s))"
  using mem
proof (induction anchors arbitrary: s)
  case Nil
  then show ?case by simp
next
  case (Cons a anchors)
  obtain c m where a: "a = (c, m)" by (cases a)
  let ?s1 = "snd (remove_bots_reaction_on P c m s)"
  have unfold: "retract_each P (a # anchors) s = retract_each P anchors ?s1"
    using a by (simp add: retract_each_def)
  have t1: "trace ?s1 = trace s @ new_calls s ?s1"
    using io_step_new_calls [OF remove_bots_reaction_on_step [of s P c m]] by simp
  have t2: "trace (retract_each P anchors ?s1) = trace ?s1 @ new_calls ?s1 (retract_each P anchors ?s1)"
    using io_step_new_calls [OF retract_each_step [of ?s1 P anchors]] by simp
  have split: "new_calls s (retract_each P anchors ?s1)
               = new_calls s ?s1 @ new_calls ?s1 (retract_each P anchors ?s1)"
    using t1 t2 by (rule new_calls_trans)
  show ?case
  proof (cases "(ch_id, mid) = a")
    case True
    from cache have "get_channel P (world s) c = Some c" by simp
    from remove_bots_reaction_on_fetches [OF this, of m] True a unfold split
    show ?thesis by auto
  next
    case False
    with Cons.prems have "(ch_id, mid) \<in> set anchors" by simp
    from Cons.IH [OF this, of ?s1] unfold split show ?thesis by auto
  qed
qed


lemma do_edit_original_response_frame:
  "participants_order (snd (do_edit_original_response P i rendered s)) = participants_order s"
  "participants_names (snd (do_edit_original_response P i rendered s)) = participants_names s"
  "anchor_messages (snd (do_edit_original_response P i rendered s)) = anchor_messages s"
  "trace (snd (do_edit_original_response P i rendered s))
     = trace s @ [EditOriginalResponse i rendered (fst (do_edit_original_response P i rendered s))]"
  by (simp_all add: do_edit_original_response_def split: prod.splits)

lemma two_anchors_sel:
  "lineup_channel_id (two_anchors script) = Some 10"
  "lineup_message_id (two_anchors script) = Some 200"
  "world (two_anchors script) = (script, 500)"
  "trace (two_anchors script) = []"
  "participants_order (two_anchors script) = [1, 2, 3]"
  "anchor_messages (two_anchors script) = {(10, 100), (10, 101)}"
  by (simp_all add: two_anchors_def)

lemma enum2_two: "enum2 {(10, 100), (10, 101)} = [(10, 100), (10, 101)]"
  by (simp add: enum2_def)

lemma do_remove_reaction_trace:
  "\<exists>x. trace (snd (do_remove_reaction P msg r uid s)) = trace s @ [RemoveReaction msg r uid x]"
  by (simp add: do_remove_reaction_def split: prod.splits)

lemma remove_matching_removes:
  assumes "r \<in> set rs" and "emoji_matches r reaction_emoji"
  shows "\<exists>x. RemoveReaction msg r (bot_user_id P) x
               \<in> set (new_calls s (remove_matching P msg rs s))"
  using assms(1)
proof (induction rs arbitrary: s)
  case Nil
  then show ?case by simp
next
  case (Cons r0 rs)
  show ?case
  proof (cases "emoji_matches r0 reaction_emoji")
    case True
    let ?s1 = "snd (do_remove_reaction P msg r0 (bot_user_id P) s)"
    from do_remove_reaction_trace [of P msg r0 "bot_user_id P" s]
    obtain x where t1: "trace ?s1 = trace s @ [RemoveReaction msg r0 (bot_user_id P) x]"
      by blast
    have unfold: "remove_matching P msg (r0 # rs) s = remove_matching P msg rs ?s1"
      using True by (simp split: prod.splits)
    have t2: "trace (remove_matching P msg rs ?s1)
              = trace ?s1 @ new_calls ?s1 (remove_matching P msg rs ?s1)"
      using io_step_new_calls [OF remove_matching_step [of ?s1 P msg rs]] by simp
    have split: "new_calls s (remove_matching P msg rs ?s1)
                 = new_calls s ?s1 @ new_calls ?s1 (remove_matching P msg rs ?s1)"
      using t1 t2 by (rule new_calls_trans)
    have first: "new_calls s ?s1 = [RemoveReaction msg r0 (bot_user_id P) x]"
      using t1 by (rule new_calls_append)
    show ?thesis
    proof (cases "r = r0")
      case True
      with unfold split first show ?thesis by auto
    next
      case False
      with Cons.prems have "r \<in> set rs" by simp
      from Cons.IH [OF this, of ?s1] unfold split show ?thesis by auto
    qed
  next
    case False
    with assms(2) have "r \<noteq> r0" by auto
    with Cons.prems have "r \<in> set rs" by simp
    from Cons.IH [OF this, of s] False show ?thesis by simp
  qed
qed

lemma remove_bots_reaction_on_attempts:
  assumes "get_channel P (world s) ch_id = Some ch_id"
  shows "retraction_attempted P ch_id mid
           (new_calls s (snd (remove_bots_reaction_on P ch_id mid s)))"
proof -
  obtain res s1 where f: "do_fetch P ch_id mid s = (res, s1)"
    by (cases "do_fetch P ch_id mid s")
  then have t1: "trace s1 = trace s @ [FetchMessage ch_id mid res]"
    by (auto simp: do_fetch_def split: prod.splits)
  show ?thesis
  proof (cases res)
    case (Inl e)
    with assms f t1 show ?thesis
      by (auto simp: remove_bots_reaction_on_def new_calls_def retraction_attempted_def)
  next
    case (Inr msg)
    let ?s2 = "remove_matching P msg (msg_reactions msg) s1"
    have final: "snd (remove_bots_reaction_on P ch_id mid s) = ?s2"
      using assms f Inr by (simp add: remove_bots_reaction_on_def)
    have t2: "trace ?s2 = trace s1 @ new_calls s1 ?s2"
      using io_step_new_calls [OF remove_matching_step [of s1 P msg "msg_reactions msg"]]
      by simp
    have split: "new_calls s ?s2 = new_calls s s1 @ new_calls s1 ?s2"
      using t1 t2 by (rule new_calls_trans)
    have first: "new_calls s s1 = [FetchMessage ch_id mid res]"
      using t1 by (rule new_calls_append)
    have removed: "list_all (\<lambda>r. \<exists>x. RemoveReaction msg r (bot_user_id P) x
                                      \<in> set (new_calls s ?s2))
                     (filter (\<lambda>r. emoji_matches r reaction_emoji) (msg_reactions msg))"
      unfolding list_all_iff
    proof
      fix r
      assume "r \<in> set (filter (\<lambda>r. emoji_matches r reaction_emoji) (msg_reactions msg))"
      then have "r \<in> set (msg_reactions msg)" and "emoji_matches r reaction_emoji" by simp_all
      from remove_matching_removes [OF this, of msg P s1] split
      show "\<exists>x. RemoveReaction msg r (bot_user_id P) x \<in> set (new_calls s ?s2)" by auto
    qed
    have "FetchMessage ch_id mid (Inr msg) \<in> set (new_calls s ?s2)"
      using split first Inr by simp
    with removed final show ?thesis
      unfolding retraction_attempted_def by (intro exI [of _ "Inr msg"]) simp
  qed
qed

lemma retraction_attempted_mono:
  assumes "retraction_attempted P ch_id mid calls" and "set calls \<subseteq> set calls'"
  shows "retraction_attempted P ch_id mid calls'"
proof -
  from assms(1) obtain res where res: "FetchMessage ch_id mid res \<in> set calls"
    and rest: "case res of
              Inl e \<Rightarrow> True
            | Inr msg \<Rightarrow>
                list_all (\<lambda>r. \<exists>x. RemoveReaction msg r (bot_user_id P) x \<in> set calls)
                         (filter (\<lambda>r. emoji_matches r reaction_emoji) (msg_reactions msg))"
    unfolding retraction_attempted_def by blast
  from res assms(2) have "FetchMessage ch_id mid res \<in> set calls'" by auto
  moreover have "case res of
              Inl e \<Rightarrow> True
            | Inr msg \<Rightarrow>
                list_all (\<lambda>r. \<exists>x. RemoveReaction msg r (bot_user_id P) x \<in> set calls')
                         (filter (\<lambda>r. emoji_matches r reaction_emoji) (msg_reactions msg))"
    using rest assms(2) by (cases res) (auto simp: list_all_iff)
  ultimately show ?thesis unfolding retraction_attempted_def by blast
qed

lemma retract_each_attempts:
  assumes cache: "\<forall>w c. get_channel P w c = Some c"
      and mem: "(ch_id, mid) \<in> set anchors"
  shows "retraction_attempted P ch_id mid (new_calls s (retract_each P anchors s))"
  using mem
proof (induction anchors arbitrary: s)
  case Nil
  then show ?case by simp
next
  case (Cons a anchors)
  obtain c m where a: "a = (c, m)" by (cases a)
  let ?s1 = "snd (remove_bots_reaction_on P c m s)"
  have unfold: "retract_each P (a # anchors) s = retract_each P anchors ?s1"
    using a by (simp add: retract_each_def)
  have t1: "trace ?s1 = trace s @ new_calls s ?s1"
    using io_step_new_calls [OF remove_bots_reaction_on_step [of s P c m]] by simp
  have t2: "trace (retract_each P anchors ?s1) = trace ?s1 @ new_calls ?s1 (retract_each P anchors ?s1)"
    using io_step_new_calls [OF retract_each_step [of ?s1 P anchors]] by simp
  have split: "new_calls s (retract_each P anchors ?s1)
               = new_calls s ?s1 @ new_calls ?s1 (retract_each P anchors ?s1)"
    using t1 t2 by (rule new_calls_trans)
  show ?case
  proof (cases "(ch_id, mid) = a")
    case True
    from cache have "get_channel P (world s) c = Some c" by simp
    from remove_bots_reaction_on_attempts [OF this, of m]
    have "retraction_attempted P c m (new_calls s ?s1)" .
    then have "retraction_attempted P c m (new_calls s (retract_each P anchors ?s1))"
      by (rule retraction_attempted_mono) (simp add: split)
    with True a unfold show ?thesis by simp
  next
    case False
    with Cons.prems have "(ch_id, mid) \<in> set anchors" by simp
    from Cons.IH [OF this, of ?s1]
    have "retraction_attempted P ch_id mid (new_calls ?s1 (retract_each P anchors ?s1))" .
    then have "retraction_attempted P ch_id mid (new_calls s (retract_each P anchors ?s1))"
      by (rule retraction_attempted_mono) (simp add: split)
    with unfold show ?thesis by simp
  qed
qed

lemma clear_after_defer:
  assumes "response_defer P (world s) i = (w, Inr ())"
      and "set (enum (anchor_messages s)) = anchor_messages s"
  shows "participants_order (snd (clear P enum i s)) = []
         \<and> participants_names (snd (clear P enum i s)) = Map.empty
         \<and> anchor_messages (snd (clear P enum i s)) = {}
         \<and> retract_all P (enum (anchor_messages s)) (cleared w i s)
             = (Inr (), retract_each P (enum (anchor_messages s)) (cleared w i s))
         \<and> clear P enum i s
             = (case update_lineup_message P (interaction_channel i)
                       (retract_each P (enum (anchor_messages s)) (cleared w i s)) of
                  (Inl e, s5) \<Rightarrow> (Inl e, s5)
                | (Inr x, s5) \<Rightarrow> do_edit_original_response P i cleared_text s5)
         \<and> (fst (update_lineup_message P (interaction_channel i)
                    (retract_each P (enum (anchor_messages s)) (cleared w i s))) = Inr ()
              \<longrightarrow> last (trace (snd (clear P enum i s)))
                    = EditOriginalResponse i cleared_text (fst (clear P enum i s)))
         \<and> ((\<forall>v c. get_channel P v c = Some c)
              \<longrightarrow> (\<forall>(c, m) \<in> anchor_messages s.
                     \<exists>r. FetchMessage c m r \<in> set (new_calls s (snd (clear P enum i s)))))
         \<and> ((\<forall>v c. get_channel P v c = Some c)
              \<longrightarrow> (\<forall>(c, m) \<in> anchor_messages s.
                     retraction_attempted P c m (new_calls s (snd (clear P enum i s)))))
         \<and> list_all (display_call (interaction_channel i) (Inr empty_text))
               (new_calls (retract_each P (enum (anchor_messages s)) (cleared w i s))
                  (snd (update_lineup_message P (interaction_channel i)
                         (retract_each P (enum (anchor_messages s)) (cleared w i s)))))
         \<and> (fst (update_lineup_message P (interaction_channel i)
                    (retract_each P (enum (anchor_messages s)) (cleared w i s))) \<noteq> Inr ()
              \<longrightarrow> clear P enum i s
                    = update_lineup_message P (interaction_channel i)
                        (retract_each P (enum (anchor_messages s)) (cleared w i s)))"
proof -
  let ?anchors = "enum (anchor_messages s)"
  let ?s3 = "cleared w i s"
  let ?s4 = "retract_each P ?anchors ?s3"
  let ?ch = "interaction_channel i"
  have loop: "retract_all P ?anchors ?s3 = (Inr (), ?s4)" by (rule retract_all_each)
  have run: "clear P enum i s
             = (case update_lineup_message P ?ch ?s4 of
                  (Inl e, s5) \<Rightarrow> (Inl e, s5)
                | (Inr x, s5) \<Rightarrow> do_edit_original_response P i cleared_text s5)"
    using assms(1) loop
    by (simp add: clear_def do_defer_def Let_def cleared_def)
  obtain r5 s5 where up: "update_lineup_message P ?ch ?s4 = (r5, s5)"
    by (cases "update_lineup_message P ?ch ?s4")
  have step4: "io_step retract_call 0 0 ?s3 ?s4" by (rule retract_each_step)
  have step5: "io_step (display_call ?ch (lineup_text ?s4)) 2 1 ?s4 s5"
    using update_lineup_message_step [of ?ch ?s4 P] up by simp
  have f3: "participants_order ?s3 = []" "participants_names ?s3 = Map.empty"
    "anchor_messages ?s3 = {}" "trace ?s3 = trace s @ [Defer i (Inr ())]"
    by (simp_all add: cleared_def)
  have f5: "participants_order s5 = []" "participants_names s5 = Map.empty"
    "anchor_messages s5 = {}"
    using io_step_frame [OF step4] io_step_frame [OF step5] f3 by simp_all
  have t4: "trace ?s4 = trace ?s3 @ new_calls ?s3 ?s4"
    using io_step_new_calls [OF step4] by simp
  have t5: "trace s5 = trace ?s4 @ new_calls ?s4 s5"
    using io_step_new_calls [OF step5] by simp
  let ?final = "snd (clear P enum i s)"
  have final: "?final = s5 \<or> ?final = snd (do_edit_original_response P i cleared_text s5)"
    using run up by (cases r5) simp_all
  have empty: "participants_order ?final = [] \<and> participants_names ?final = Map.empty
               \<and> anchor_messages ?final = {}"
    using final f5 by (auto simp: do_edit_original_response_frame)
  have confirm: "fst (update_lineup_message P ?ch ?s4) = Inr ()
                 \<longrightarrow> last (trace ?final)
                       = EditOriginalResponse i cleared_text (fst (clear P enum i s))"
  proof
    assume "fst (update_lineup_message P ?ch ?s4) = Inr ()"
    with up have r5: "r5 = Inr ()" by simp
    with run up have eq: "clear P enum i s = do_edit_original_response P i cleared_text s5"
      by simp
    then show "last (trace ?final)
               = EditOriginalResponse i cleared_text (fst (clear P enum i s))"
      by (simp add: do_edit_original_response_frame)
  qed
  have grows: "\<exists>n. trace ?final = trace s5 @ n"
    using final by (auto simp: do_edit_original_response_frame)
  have fetched: "(\<forall>v c. get_channel P v c = Some c)
                 \<longrightarrow> (\<forall>(c, m) \<in> anchor_messages s.
                        \<exists>r. FetchMessage c m r \<in> set (new_calls s ?final))"
  proof (intro impI ballI)
    fix a
    assume cache: "\<forall>v c. get_channel P v c = Some c" and a: "a \<in> anchor_messages s"
    obtain c m where cm: "a = (c, m)" by (cases a)
    with a assms(2) have "(c, m) \<in> set ?anchors" by simp
    from retract_each_fetches [OF cache this, of ?s3]
    obtain r where r: "FetchMessage c m r \<in> set (new_calls ?s3 ?s4)" by blast
    from grows obtain n where n: "trace ?final = trace s5 @ n" by blast
    have "trace ?final = trace s @ ([Defer i (Inr ())] @ new_calls ?s3 ?s4 @ new_calls ?s4 s5 @ n)"
      using n t5 t4 f3(4) by simp
    then have "new_calls s ?final
               = [Defer i (Inr ())] @ new_calls ?s3 ?s4 @ new_calls ?s4 s5 @ n"
      by (rule new_calls_append)
    with r have "FetchMessage c m r \<in> set (new_calls s ?final)" by simp
    with cm show "case a of (c, m) \<Rightarrow> \<exists>r. FetchMessage c m r \<in> set (new_calls s ?final)"
      by auto
  qed
  have attempted: "(\<forall>v c. get_channel P v c = Some c)
                 \<longrightarrow> (\<forall>(c, m) \<in> anchor_messages s.
                        retraction_attempted P c m (new_calls s ?final))"
  proof (intro impI ballI)
    fix a
    assume cache: "\<forall>v c. get_channel P v c = Some c" and a: "a \<in> anchor_messages s"
    obtain c m where cm: "a = (c, m)" by (cases a)
    with a assms(2) have "(c, m) \<in> set ?anchors" by simp
    from retract_each_attempts [OF cache this, of ?s3]
    have att: "retraction_attempted P c m (new_calls ?s3 ?s4)" .
    from grows obtain n where n: "trace ?final = trace s5 @ n" by blast
    have "trace ?final = trace s @ ([Defer i (Inr ())] @ new_calls ?s3 ?s4 @ new_calls ?s4 s5 @ n)"
      using n t5 t4 f3(4) by simp
    then have "new_calls s ?final
               = [Defer i (Inr ())] @ new_calls ?s3 ?s4 @ new_calls ?s4 s5 @ n"
      by (rule new_calls_append)
    then have "set (new_calls ?s3 ?s4) \<subseteq> set (new_calls s ?final)" by auto
    from retraction_attempted_mono [OF att this] cm
    show "case a of (c, m) \<Rightarrow> retraction_attempted P c m (new_calls s ?final)"
      by simp
  qed
  have rendered: "lineup_text ?s4 = Inr empty_text"
    using io_step_frame [OF step4] f3 by (simp add: lineup_text_def)
  have sync: "list_all (display_call ?ch (Inr empty_text))
                (new_calls ?s4 (snd (update_lineup_message P ?ch ?s4)))"
    using io_step_new_calls [OF step5] rendered up by simp
  have raised: "fst (update_lineup_message P ?ch ?s4) \<noteq> Inr ()
                \<longrightarrow> clear P enum i s = update_lineup_message P ?ch ?s4"
    using run up by (cases r5) simp_all
  from empty loop run confirm fetched attempted sync raised show ?thesis by simp
qed

text \<open>
  C3, as the code has it. When the deferral raises, \<open>clear\<close> stops there: the
  exception propagates and nothing is cleared. When the response is deferred, \<open>clear\<close>
  leaves the order list, the name mapping and the anchor set empty, whatever happens
  later. The loop runs over the enumeration of the anchors that the state held before the
  call, and it never stops early: \<open>_remove_bots_reaction_on\<close> is run on every one of
  them, whatever the earlier ones raised, and when the channels are in the cache the
  message of every old anchor is fetched and the removal is called for each of its
  matching reactions. Then the display is updated with the text of the empty roster; when
  that does not raise, the confirmation is the last call made, and when it raises,
  \<open>clear\<close> ends with it and sends no confirmation.
\<close>

theorem clear_spec:
  "(response_defer P (world s) i = (w, Inl e)
      \<longrightarrow> clear P enum i s
            = (Inl e, s\<lparr>world := w, trace := trace s @ [Defer i (Inl e)]\<rparr>))
   \<and> (response_defer P (world s) i = (w, Inr ())
      \<and> set (enum (anchor_messages s)) = anchor_messages s
      \<longrightarrow>
       participants_order (snd (clear P enum i s)) = []
         \<and> participants_names (snd (clear P enum i s)) = Map.empty
         \<and> anchor_messages (snd (clear P enum i s)) = {}
         \<and> retract_all P (enum (anchor_messages s)) (cleared w i s)
             = (Inr (), retract_each P (enum (anchor_messages s)) (cleared w i s))
         \<and> clear P enum i s
             = (case update_lineup_message P (interaction_channel i)
                       (retract_each P (enum (anchor_messages s)) (cleared w i s)) of
                  (Inl e, s5) \<Rightarrow> (Inl e, s5)
                | (Inr x, s5) \<Rightarrow> do_edit_original_response P i cleared_text s5)
         \<and> (fst (update_lineup_message P (interaction_channel i)
                    (retract_each P (enum (anchor_messages s)) (cleared w i s))) = Inr ()
              \<longrightarrow> last (trace (snd (clear P enum i s)))
                    = EditOriginalResponse i cleared_text (fst (clear P enum i s)))
         \<and> ((\<forall>v c. get_channel P v c = Some c)
              \<longrightarrow> (\<forall>(c, m) \<in> anchor_messages s.
                     \<exists>r. FetchMessage c m r \<in> set (new_calls s (snd (clear P enum i s)))))
         \<and> ((\<forall>v c. get_channel P v c = Some c)
              \<longrightarrow> (\<forall>(c, m) \<in> anchor_messages s.
                     retraction_attempted P c m (new_calls s (snd (clear P enum i s)))))
         \<and> list_all (display_call (interaction_channel i) (Inr empty_text))
               (new_calls (retract_each P (enum (anchor_messages s)) (cleared w i s))
                  (snd (update_lineup_message P (interaction_channel i)
                         (retract_each P (enum (anchor_messages s)) (cleared w i s)))))
         \<and> (fst (update_lineup_message P (interaction_channel i)
                    (retract_each P (enum (anchor_messages s)) (cleared w i s))) \<noteq> Inr ()
              \<longrightarrow> clear P enum i s
                    = update_lineup_message P (interaction_channel i)
                        (retract_each P (enum (anchor_messages s)) (cleared w i s))))"
proof (rule conjI, goal_cases)
  case 1
  show ?case by (simp add: clear_def do_defer_def)
next
  case 2
  show ?case
    by (rule impI, elim conjE, (rule clear_after_defer [where enum = enum]; assumption))
qed

theorem clear_spec_witness:
  "response_defer scripted (world (two_anchors [False])) slash = (([], 500), Inl NotFound)
   \<and> clear scripted enum2 slash (two_anchors [False])
       = (Inl NotFound, (two_anchors [False])
            \<lparr>world := ([], 500), trace := [Defer slash (Inl NotFound)]\<rparr>)
   \<and> response_defer scripted (world (two_anchors [True, True, False])) slash
       = (([True, False], 500), Inr ())
   \<and> participants_order (two_anchors [True, True, False]) = [1, 2, 3]
   \<and> anchor_messages (two_anchors [True, True, False]) = {(10, 100), (10, 101)}
   \<and> set (enum2 (anchor_messages (two_anchors [True, True, False])))
       = anchor_messages (two_anchors [True, True, False])
   \<and> clear scripted enum2 slash (two_anchors [True, True, False])
       = (Inr (), (two_anchors [True, True, False])
            \<lparr>participants_order := [], participants_names := Map.empty,
              anchor_messages := {}, world := ([], 500),
              trace := [Defer slash (Inr ()),
                        FetchMessage 10 100 (Inr (stored_message 10 100)),
                        RemoveReaction (stored_message 10 100) check_emoji 999 (Inl Forbidden),
                        FetchMessage 10 101 (Inr (stored_message 10 101)),
                        RemoveReaction (stored_message 10 101) check_emoji 999 (Inr ()),
                        FetchMessage 10 200 (Inr (stored_message 10 200)),
                        FetchMessage 10 200 (Inr (stored_message 10 200)),
                        Edit (stored_message 10 200) empty_text (Inr ()),
                        EditOriginalResponse slash cleared_text (Inr ())]\<rparr>)
   \<and> participants_order (snd (clear scripted enum2 slash (two_anchors [True, True, False]))) = []
   \<and> anchor_messages (snd (clear scripted enum2 slash (two_anchors [True, True, False]))) = {}
   \<and> last (trace (snd (clear scripted enum2 slash (two_anchors [True, True, False]))))
       = EditOriginalResponse slash cleared_text (Inr ())
   \<and> (\<forall>v c. get_channel scripted v c = Some c)
   \<and> (\<exists>r. FetchMessage 10 100 r
            \<in> set (new_calls (two_anchors [True, True, False])
                      (snd (clear scripted enum2 slash (two_anchors [True, True, False])))))
   \<and> (\<exists>r. FetchMessage 10 101 r
            \<in> set (new_calls (two_anchors [True, True, False])
                      (snd (clear scripted enum2 slash (two_anchors [True, True, False])))))
   \<and> retraction_attempted scripted 10 100
         (new_calls (two_anchors [True, True, False])
            (snd (clear scripted enum2 slash (two_anchors [True, True, False]))))
   \<and> retraction_attempted scripted 10 101
         (new_calls (two_anchors [True, True, False])
            (snd (clear scripted enum2 slash (two_anchors [True, True, False]))))
   \<and> clear scripted enum2 slash (two_anchors [True, True, False, True, True, False])
       = (Inr (), (two_anchors [True, True, False, True, True, False])
            \<lparr>participants_order := [], participants_names := Map.empty,
              lineup_channel_id := Some 10, lineup_message_id := Some 500,
              anchor_messages := {}, world := ([], 501),
              trace := [Defer slash (Inr ()),
                        FetchMessage 10 100 (Inr (stored_message 10 100)),
                        RemoveReaction (stored_message 10 100) check_emoji 999 (Inl Forbidden),
                        FetchMessage 10 101 (Inr (stored_message 10 101)),
                        RemoveReaction (stored_message 10 101) check_emoji 999 (Inr ()),
                        FetchMessage 10 200 (Inl NotFound),
                        Send 10 empty_text (Inr (stored_message 10 500)),
                        FetchMessage 10 500 (Inr (stored_message 10 500)),
                        Edit (stored_message 10 500) empty_text (Inr ()),
                        EditOriginalResponse slash cleared_text (Inr ())]\<rparr>)"
proof -
  let ?s = "two_anchors [True, True, False]"
  have ack: "response_defer scripted (world ?s) slash = (([True, False], 500), Inr ())"
    by (simp add: two_anchors_sel scripted_simps script_simps)
  have snapshot: "set (enum2 (anchor_messages ?s)) = anchor_messages ?s"
    by (simp add: two_anchors_sel enum2_two)
  have run: "clear scripted enum2 slash ?s
       = (Inr (), ?s
            \<lparr>participants_order := [], participants_names := Map.empty,
              anchor_messages := {}, world := ([], 500),
              trace := [Defer slash (Inr ()),
                        FetchMessage 10 100 (Inr (stored_message 10 100)),
                        RemoveReaction (stored_message 10 100) check_emoji 999 (Inl Forbidden),
                        FetchMessage 10 101 (Inr (stored_message 10 101)),
                        RemoveReaction (stored_message 10 101) check_emoji 999 (Inr ()),
                        FetchMessage 10 200 (Inr (stored_message 10 200)),
                        FetchMessage 10 200 (Inr (stored_message 10 200)),
                        Edit (stored_message 10 200) empty_text (Inr ()),
                        EditOriginalResponse slash cleared_text (Inr ())]\<rparr>)"
    by (simp add: clear_def do_defer_def Let_def two_anchors_sel enum2_two
                  remove_bots_reaction_on_def do_fetch_def do_remove_reaction_def
                  sample_guards update_lineup_message_def ensure_lineup_message_def
                  stored_message_exists_def truthy_def fetch_and_edit_def do_edit_def
                  lineup_text_def do_edit_original_response_def
                  scripted_simps script_simps stored_message_sel slash_def)
  have nack: "response_defer scripted (world (two_anchors [False])) slash
              = (([], 500), Inl NotFound)"
    by (simp add: two_anchors_sel scripted_simps script_simps)
  from clear_spec [where P = scripted and s = "two_anchors [False]" and i = slash
                     and w = "([], 500)" and e = NotFound and enum = enum2] nack
  have refused: "clear scripted enum2 slash (two_anchors [False])
       = (Inl NotFound, (two_anchors [False])
            \<lparr>world := ([], 500),
              trace := trace (two_anchors [False]) @ [Defer slash (Inl NotFound)]\<rparr>)"
    by blast
  from clear_spec [where P = scripted and s = ?s and i = slash
                     and w = "([True, False], 500)" and enum = enum2] ack snapshot
  have spec: "participants_order (snd (clear scripted enum2 slash ?s)) = []
         \<and> anchor_messages (snd (clear scripted enum2 slash ?s)) = {}
         \<and> (fst (update_lineup_message scripted (interaction_channel slash)
                    (retract_each scripted (enum2 (anchor_messages ?s))
                       (cleared ([True, False], 500) slash ?s))) = Inr ()
              \<longrightarrow> last (trace (snd (clear scripted enum2 slash ?s)))
                    = EditOriginalResponse slash cleared_text
                        (fst (clear scripted enum2 slash ?s)))
         \<and> ((\<forall>v c. get_channel scripted v c = Some c)
              \<longrightarrow> (\<forall>(c, m) \<in> anchor_messages ?s.
                     \<exists>r. FetchMessage c m r
                           \<in> set (new_calls ?s (snd (clear scripted enum2 slash ?s)))))
         \<and> ((\<forall>v c. get_channel scripted v c = Some c)
              \<longrightarrow> (\<forall>(c, m) \<in> anchor_messages ?s.
                     retraction_attempted scripted c m
                       (new_calls ?s (snd (clear scripted enum2 slash ?s)))))"
    by blast
  let ?g = "two_anchors [True, True, False, True, True, False]"
  have gone: "clear scripted enum2 slash ?g
       = (Inr (), ?g
            \<lparr>participants_order := [], participants_names := Map.empty,
              lineup_channel_id := Some 10, lineup_message_id := Some 500,
              anchor_messages := {}, world := ([], 501),
              trace := [Defer slash (Inr ()),
                        FetchMessage 10 100 (Inr (stored_message 10 100)),
                        RemoveReaction (stored_message 10 100) check_emoji 999 (Inl Forbidden),
                        FetchMessage 10 101 (Inr (stored_message 10 101)),
                        RemoveReaction (stored_message 10 101) check_emoji 999 (Inr ()),
                        FetchMessage 10 200 (Inl NotFound),
                        Send 10 empty_text (Inr (stored_message 10 500)),
                        FetchMessage 10 500 (Inr (stored_message 10 500)),
                        Edit (stored_message 10 500) empty_text (Inr ()),
                        EditOriginalResponse slash cleared_text (Inr ())]\<rparr>)"
    by (simp add: clear_def do_defer_def Let_def two_anchors_sel enum2_two
                  remove_bots_reaction_on_def do_fetch_def do_remove_reaction_def
                  sample_guards update_lineup_message_def ensure_lineup_message_def
                  stored_message_exists_def truthy_def fetch_and_edit_def do_edit_def
                  send_and_record_def do_send_def
                  lineup_text_def do_edit_original_response_def
                  scripted_simps script_simps stored_message_sel slash_def)
  from spec have empty: "participants_order (snd (clear scripted enum2 slash ?s)) = []"
    "anchor_messages (snd (clear scripted enum2 slash ?s)) = {}"
    by blast+
  have synced: "fst (update_lineup_message scripted (interaction_channel slash)
                     (retract_each scripted (enum2 (anchor_messages ?s))
                        (cleared ([True, False], 500) slash ?s))) = Inr ()"
    by (simp add: retract_each_def cleared_def two_anchors_sel enum2_two
                  remove_bots_reaction_on_def do_fetch_def do_remove_reaction_def
                  sample_guards update_lineup_message_def ensure_lineup_message_def
                  stored_message_exists_def truthy_def fetch_and_edit_def do_edit_def
                  lineup_text_def scripted_simps script_simps stored_message_sel slash_def)
  have result: "fst (clear scripted enum2 slash ?s) = Inr ()" by (simp add: run)
  from spec synced have "last (trace (snd (clear scripted enum2 slash ?s)))
       = EditOriginalResponse slash cleared_text (fst (clear scripted enum2 slash ?s))"
    by blast
  with result have confirm: "last (trace (snd (clear scripted enum2 slash ?s)))
       = EditOriginalResponse slash cleared_text (Inr ())"
    by simp
  have cache: "\<forall>v c. get_channel scripted v c = Some c"
    by (simp add: scripted_simps)
  with spec have each: "\<forall>(c, m) \<in> anchor_messages ?s.
      \<exists>r. FetchMessage c m r \<in> set (new_calls ?s (snd (clear scripted enum2 slash ?s)))"
    by blast
  from spec cache have tried: "\<forall>(c, m) \<in> anchor_messages ?s.
      retraction_attempted scripted c m (new_calls ?s (snd (clear scripted enum2 slash ?s)))"
    by blast
  have tried1: "retraction_attempted scripted 10 100
                  (new_calls ?s (snd (clear scripted enum2 slash ?s)))"
    and tried2: "retraction_attempted scripted 10 101
                  (new_calls ?s (snd (clear scripted enum2 slash ?s)))"
    using tried by (simp_all add: two_anchors_sel)
  have refused': "clear scripted enum2 slash (two_anchors [False])
       = (Inl NotFound, (two_anchors [False])
            \<lparr>world := ([], 500), trace := [Defer slash (Inl NotFound)]\<rparr>)"
    using refused by (simp add: two_anchors_sel)
  have first: "\<exists>r. FetchMessage 10 100 r
                 \<in> set (new_calls ?s (snd (clear scripted enum2 slash ?s)))"
    and second: "\<exists>r. FetchMessage 10 101 r
                 \<in> set (new_calls ?s (snd (clear scripted enum2 slash ?s)))"
    using each by (simp_all add: two_anchors_sel)
  from nack refused' ack snapshot run empty confirm cache first second tried1 tried2 gone
       two_anchors_sel(5,6) [of "[True, True, False]"]
  show ?thesis by blast
qed

text \<open>
  C3 as stated fails: when the deferral raises, the roster and the anchors are as before;
  and when the send of the display update raises, no confirmation is sent.
\<close>

theorem clear_counterexample:
  "clear scripted enum2 slash (two_anchors [False])
     = (Inl NotFound, (two_anchors [False])
          \<lparr>world := ([], 500), trace := [Defer slash (Inl NotFound)]\<rparr>)
   \<and> participants_order (snd (clear scripted enum2 slash (two_anchors [False]))) = [1, 2, 3]
   \<and> anchor_messages (snd (clear scripted enum2 slash (two_anchors [False])))
       = {(10, 100), (10, 101)}
   \<and> clear scripted enum2 slash (two_anchors [True, True, True, True, True, False, False])
       = (Inl HTTPException, (two_anchors [True, True, True, True, True, False, False])
            \<lparr>participants_order := [], participants_names := Map.empty,
              anchor_messages := {}, world := ([], 501),
              trace := [Defer slash (Inr ()),
                        FetchMessage 10 100 (Inr (stored_message 10 100)),
                        RemoveReaction (stored_message 10 100) check_emoji 999 (Inr ()),
                        FetchMessage 10 101 (Inr (stored_message 10 101)),
                        RemoveReaction (stored_message 10 101) check_emoji 999 (Inr ()),
                        FetchMessage 10 200 (Inl NotFound),
                        Send 10 empty_text (Inl HTTPException)]\<rparr>)"
proof -
  have refused: "clear scripted enum2 slash (two_anchors [False])
     = (Inl NotFound, (two_anchors [False])
          \<lparr>world := ([], 500), trace := [Defer slash (Inl NotFound)]\<rparr>)"
    by (simp add: clear_def do_defer_def two_anchors_sel scripted_simps script_simps)
  have kept: "participants_order (snd (clear scripted enum2 slash (two_anchors [False])))
              = [1, 2, 3]"
    "anchor_messages (snd (clear scripted enum2 slash (two_anchors [False])))
       = {(10, 100), (10, 101)}"
    unfolding refused by (simp_all add: two_anchors_sel)
  have silent: "clear scripted enum2 slash (two_anchors [True, True, True, True, True, False, False])
       = (Inl HTTPException, (two_anchors [True, True, True, True, True, False, False])
            \<lparr>participants_order := [], participants_names := Map.empty,
              anchor_messages := {}, world := ([], 501),
              trace := [Defer slash (Inr ()),
                        FetchMessage 10 100 (Inr (stored_message 10 100)),
                        RemoveReaction (stored_message 10 100) check_emoji 999 (Inr ()),
                        FetchMessage 10 101 (Inr (stored_message 10 101)),
                        RemoveReaction (stored_message 10 101) check_emoji 999 (Inr ()),
                        FetchMessage 10 200 (Inl NotFound),
                        Send 10 empty_text (Inl HTTPException)]\<rparr>)"
    by (simp add: clear_def do_defer_def Let_def two_anchors_sel enum2_two
                  remove_bots_reaction_on_def do_fetch_def do_remove_reaction_def
                  sample_guards update_lineup_message_def ensure_lineup_message_def
                  stored_message_exists_def truthy_def fetch_and_edit_def do_edit_def
                  send_and_record_def do_send_def
                  lineup_text_def do_edit_original_response_def
                  scripted_simps script_simps stored_message_sel slash_def)
  from refused kept silent show ?thesis by blast
qed

end
